theory Spec2Isabelle
  imports Main "HOL-Library.AList" "HOL-Library.Log_Nat"
begin

section \<open>Python values and string operations\<close>

text \<open>
  A Python \<open>str\<close> is a \<^typ>\<open>string\<close>, one \<^typ>\<open>char\<close> per code point; the model covers
  texts whose code points lie in the 8-bit range. A value produced by \<open>json.loads\<close> is a
  \<open>json\<close>; a \<open>dict\<close> is an association list with distinct keys in insertion order. The value
  of a float is not interpreted: \<open>JFloat\<close> keeps the literal.
\<close>

datatype json =
    JNull
  | JBool bool
  | JInt int
  | JFloat string
  | JStr string
  | JList "json list"
  | JDict "(string \<times> json) list"

type_synonym pydict = "(string \<times> json) list"

datatype error =
    JSONDecodeError
  | RecursionError
  | OutsideModel
  | TypeError
  | OverflowError
  | ServiceError string

definition squote :: char where
  "squote = CHR 0x27"

definition dquote :: char where
  "dquote = CHR 0x22"

definition isspace :: "char \<Rightarrow> bool" where
  \<comment> \<open>\<open>str.isspace\<close> on the 8-bit range; the class \<open>\s\<close> of \<open>re\<close> on \<open>str\<close> is the same set\<close>
  "isspace c \<longleftrightarrow> c \<in> set [CHR 0x09, CHR 0x0A, CHR 0x0B, CHR 0x0C, CHR 0x0D,
     CHR 0x1C, CHR 0x1D, CHR 0x1E, CHR 0x1F, CHR 0x20, CHR 0x85, CHR 0xA0]"

definition strip :: "string \<Rightarrow> string" where
  "strip s = rev (dropWhile isspace (rev (dropWhile isspace s)))"

definition startswith :: "string \<Rightarrow> string \<Rightarrow> bool" where
  "startswith s p \<longleftrightarrow> take (length p) s = p"

definition endswith :: "string \<Rightarrow> string \<Rightarrow> bool" where
  "endswith s p \<longleftrightarrow> length p \<le> length s \<and> drop (length s - length p) s = p"

definition str_find :: "string \<Rightarrow> char \<Rightarrow> int" where
  \<comment> \<open>\<open>s.find(c)\<close>: index of the first occurrence, \<open>-1\<close> when there is none\<close>
  "str_find s c =
     (if c \<in> set s then int (length (takeWhile (\<lambda>x. x \<noteq> c) s)) else - 1)"

definition str_rfind :: "string \<Rightarrow> char \<Rightarrow> int" where
  \<comment> \<open>\<open>s.rfind(c)\<close>: index of the last occurrence, \<open>-1\<close> when there is none\<close>
  "str_rfind s c =
     (if c \<in> set s
      then int (length s) - 1 - int (length (takeWhile (\<lambda>x. x \<noteq> c) (rev s)))
      else - 1)"

definition clamp_index :: "nat \<Rightarrow> int \<Rightarrow> nat" where
  \<comment> \<open>a slice bound: a negative bound counts from the end, and the result is clipped\<close>
  "clamp_index n i = (if i < 0 then nat (int n + i) else min n (nat i))"

definition slice :: "'a list \<Rightarrow> int \<Rightarrow> int \<Rightarrow> 'a list" where
  \<comment> \<open>\<open>xs[a:b]\<close>\<close>
  "slice xs a b =
     (let lo = clamp_index (length xs) a; hi = clamp_index (length xs) b
      in take (hi - lo) (drop lo xs))"

definition slice_from :: "'a list \<Rightarrow> int \<Rightarrow> 'a list" where
  \<comment> \<open>\<open>xs[a:]\<close>\<close>
  "slice_from xs a = drop (clamp_index (length xs) a) xs"

definition slice_to :: "'a list \<Rightarrow> int \<Rightarrow> 'a list" where
  \<comment> \<open>\<open>xs[:b]\<close>\<close>
  "slice_to xs b = take (clamp_index (length xs) b) xs"

definition has_key :: "string \<Rightarrow> pydict \<Rightarrow> bool" where
  \<comment> \<open>\<open>k in d\<close>\<close>
  "has_key k d \<longleftrightarrow> k \<in> set (map fst d)"

definition setitem :: "string \<Rightarrow> json \<Rightarrow> pydict \<Rightarrow> pydict" where
  \<comment> \<open>\<open>d[k] = v\<close>: an existing key keeps its place, a new key goes last\<close>
  "setitem k v d = AList.update k v d"

section \<open>Response recovery (quiz\_generator.py, \_extract\_json\_from\_response)\<close>

definition replace_quotes :: "string \<Rightarrow> string" where
  \<comment> \<open>\<open>json_text.replace("'", '"')\<close>\<close>
  "replace_quotes s = map (\<lambda>c. if c = squote then dquote else c) s"

definition closes_after_space :: "string \<Rightarrow> bool" where
  \<comment> \<open>the rest of the text matches \<open>\s*[}\]]\<close>\<close>
  "closes_after_space s =
     (case dropWhile isspace s of
        [] \<Rightarrow> False
      | d # _ \<Rightarrow> d = CHR ''}'' \<or> d = CHR '']'')"

fun strip_trailing_commas :: "string \<Rightarrow> string" where
  \<comment> \<open>\<open>re.sub(r',(\s*[}\]])', r'\1', s)\<close>: a match is a comma, white space and a closing
      bracket; it holds no second comma, so every comma is decided on its own\<close>
  "strip_trailing_commas [] = []"
| "strip_trailing_commas (c # cs) =
     (if c = CHR '','' \<and> closes_after_space cs
      then strip_trailing_commas cs
      else c # strip_trailing_commas cs)"

definition repair :: "string \<Rightarrow> string" where
  "repair json_text = strip_trailing_commas (replace_quotes json_text)"

fun collect_valid :: "string \<Rightarrow> json list \<Rightarrow> pydict list" where
  \<comment> \<open>the loop \<open>for q in questions_data\<close> that fills \<open>valid_questions\<close>\<close>
  "collect_valid question_type [] = []"
| "collect_valid question_type (JDict q # rest) =
     (if has_key ''question'' q \<and> has_key ''correct_answer'' q
      then setitem ''type'' (JStr question_type) q # collect_valid question_type rest
      else collect_valid question_type rest)"
| "collect_valid question_type (_ # rest) = collect_valid question_type rest"

definition strip_fences :: "string \<Rightarrow> string" where
  \<comment> \<open>lines 22 to 31: the text with the code fence removed\<close>
  "strip_fences response_text =
     (let text0 = strip response_text;
          text1 = (if startswith text0 ''```json'' then slice_from text0 7
                   else if startswith text0 ''```'' then slice_from text0 3
                   else text0);
          text2 = (if endswith text1 ''```'' then slice_to text1 (- 3) else text1)
      in strip text2)"

definition valid_of :: "string \<Rightarrow> json \<Rightarrow> pydict list" where
  \<comment> \<open>what a successful parse gives: the kept records of a list; when the value is no list
      the \<open>if isinstance\<close> is skipped and control reaches \<open>return []\<close>\<close>
  "valid_of question_type questions_data =
     (case questions_data of
        JList qs \<Rightarrow> collect_valid question_type qs
      | _ \<Rightarrow> [])"

definition extract_body ::
  "(string \<Rightarrow> error + json) \<Rightarrow> string \<Rightarrow> string \<Rightarrow> error + pydict list" where
  \<comment> \<open>the body of the outer \<open>try\<close>; \<open>loads\<close> is \<open>json.loads\<close>, which returns a value, raises
      \<open>JSONDecodeError\<close> or raises something else\<close>
  "extract_body loads response_text question_type =
     (let text3 = strip_fences response_text;
          start_idx = str_find text3 CHR ''['';
          end_idx = str_rfind text3 CHR '']'' + 1
      in if start_idx \<noteq> - 1 \<and> end_idx > start_idx
         then (let json_text = slice text3 start_idx end_idx
               in case loads json_text of
                    Inr questions_data \<Rightarrow> Inr (valid_of question_type questions_data)
                  | Inl JSONDecodeError \<Rightarrow>
                      (let fixed_text = repair json_text
                       in case loads fixed_text of
                            Inr questions_data \<Rightarrow> Inr (valid_of question_type questions_data)
                          | Inl JSONDecodeError \<Rightarrow> Inr []
                          | Inl e \<Rightarrow> Inl e)
                  | Inl e \<Rightarrow> Inl e)
         else Inr [])"

definition extract_json_from_response ::
  "(string \<Rightarrow> error + json) \<Rightarrow> string \<Rightarrow> string \<Rightarrow> error + pydict list" where
  \<comment> \<open>the outer \<open>except Exception: return []\<close>\<close>
  "extract_json_from_response loads response_text question_type =
     (case extract_body loads response_text question_type of
        Inl e \<Rightarrow> Inr []
      | Inr valid_questions \<Rightarrow> Inr valid_questions)"

section \<open>The JSON decoder\<close>

text \<open>
  \<open>json.loads\<close> belongs to the Python library. The theorems on recovery hold for any
  decoder \<open>loads\<close>; the decoder below follows the grammar that CPython's scanner accepts
  and serves to run recovery on concrete texts. Its budget bounds the number of nested
  calls: with \<open>2 * length s + 2\<close> it is not used up by a text of length \<open>length s\<close>. An
  escape \<open>\uXXXX\<close> above the 8-bit range has no image in \<^typ>\<open>char\<close> and is reported as
  \<open>OutsideModel\<close>.
\<close>

definition backslash :: char where
  "backslash = CHR 0x5C"

definition json_ws :: "char \<Rightarrow> bool" where
  "json_ws c \<longleftrightarrow> c \<in> set [CHR 0x20, CHR 0x09, CHR 0x0A, CHR 0x0D]"

definition skip_ws :: "string \<Rightarrow> string" where
  "skip_ws s = dropWhile json_ws s"

definition is_digit :: "char \<Rightarrow> bool" where
  "is_digit c \<longleftrightarrow> c \<in> set ''0123456789''"

definition digit_value :: "char \<Rightarrow> nat" where
  "digit_value c = length (takeWhile (\<lambda>d. d \<noteq> c) ''0123456789'')"

definition hex_value :: "char \<Rightarrow> nat option" where
  "hex_value c =
     (if c \<in> set ''0123456789'' then Some (length (takeWhile (\<lambda>d. d \<noteq> c) ''0123456789''))
      else if c \<in> set ''abcdef'' then Some (10 + length (takeWhile (\<lambda>d. d \<noteq> c) ''abcdef''))
      else if c \<in> set ''ABCDEF'' then Some (10 + length (takeWhile (\<lambda>d. d \<noteq> c) ''ABCDEF''))
      else None)"

definition hex4 :: "string \<Rightarrow> nat option" where
  \<comment> \<open>the four hexadecimal digits of a \<open>\u\<close> escape\<close>
  "hex4 s =
     (case map hex_value (take 4 s) of
        [Some a, Some b, Some c, Some d] \<Rightarrow> Some (((a * 16 + b) * 16 + c) * 16 + d)
      | _ \<Rightarrow> None)"

definition unescape :: "char \<Rightarrow> char option" where
  "unescape e =
     (if e = dquote then Some dquote
      else if e = backslash then Some backslash
      else if e = CHR ''/'' then Some CHR ''/''
      else if e = CHR ''b'' then Some (CHR 0x08)
      else if e = CHR ''f'' then Some (CHR 0x0C)
      else if e = CHR ''n'' then Some (CHR 0x0A)
      else if e = CHR ''r'' then Some (CHR 0x0D)
      else if e = CHR ''t'' then Some (CHR 0x09)
      else None)"

function scanstring :: "string \<Rightarrow> string \<Rightarrow> error + (string \<times> string)" where
  \<comment> \<open>strict mode, entered after the opening quote: the decoded text and the rest\<close>
  "scanstring acc [] = Inl JSONDecodeError"
| "scanstring acc (c # cs) =
     (if c = dquote then Inr (acc, cs)
      else if c = backslash then
        (case cs of
           [] \<Rightarrow> Inl JSONDecodeError
         | e # r \<Rightarrow>
             if e = CHR ''u'' then
               (case hex4 r of
                  None \<Rightarrow> Inl JSONDecodeError
                | Some n \<Rightarrow>
                    if n < 256 then scanstring (acc @ [char_of n]) (drop 4 r)
                    else Inl OutsideModel)
             else
               (case unescape e of
                  None \<Rightarrow> Inl JSONDecodeError
                | Some x \<Rightarrow> scanstring (acc @ [x]) r))
      else if (of_char c :: nat) < 32 then Inl JSONDecodeError
      else scanstring (acc @ [c]) cs)"
  by pat_completeness auto
termination
  by (relation "measure (\<lambda>(acc, s). length s)") auto

definition digits_value :: "string \<Rightarrow> int" where
  "digits_value ds = foldl (\<lambda>a d. a * 10 + int (digit_value d)) 0 ds"

definition scan_int_part :: "string \<Rightarrow> (string \<times> string) option" where
  \<comment> \<open>\<open>0|[1-9][0-9]*\<close>\<close>
  "scan_int_part s =
     (case s of
        [] \<Rightarrow> None
      | c # cs \<Rightarrow>
          if c = CHR ''0'' then Some ([c], cs)
          else if is_digit c then Some (takeWhile is_digit s, dropWhile is_digit s)
          else None)"

definition scan_frac :: "string \<Rightarrow> string \<times> string" where
  \<comment> \<open>\<open>(\.[0-9]+)?\<close>\<close>
  "scan_frac s =
     (case s of
        c # d # cs \<Rightarrow>
          if c = CHR ''.'' \<and> is_digit d
          then (c # takeWhile is_digit (d # cs), dropWhile is_digit (d # cs))
          else ([], s)
      | _ \<Rightarrow> ([], s))"

definition scan_exp :: "string \<Rightarrow> string \<times> string" where
  \<comment> \<open>\<open>([eE][-+]?[0-9]+)?\<close>\<close>
  "scan_exp s =
     (case s of
        [] \<Rightarrow> ([], s)
      | c # cs \<Rightarrow>
          if c = CHR ''e'' \<or> c = CHR ''E'' then
            (let sgn = (case cs of
                          [] \<Rightarrow> []
                        | d # _ \<Rightarrow> if d = CHR ''-'' \<or> d = CHR ''+'' then [d] else []);
                 ds = drop (length sgn) cs
             in if ds \<noteq> [] \<and> is_digit (hd ds)
                then (c # sgn @ takeWhile is_digit ds, dropWhile is_digit ds)
                else ([], s))
          else ([], s))"

definition scan_number :: "string \<Rightarrow> (json \<times> string) option" where
  "scan_number s =
     (let minus = (case s of [] \<Rightarrow> [] | c # _ \<Rightarrow> if c = CHR ''-'' then [c] else [])
      in case scan_int_part (drop (length minus) s) of
           None \<Rightarrow> None
         | Some (ip, r1) \<Rightarrow>
             (let (fp, r2) = scan_frac r1; (ep, r3) = scan_exp r2
              in if fp = [] \<and> ep = []
                 then Some (JInt ((if minus = [] then 1 else - 1) * digits_value ip), r3)
                 else Some (JFloat (minus @ ip @ fp @ ep), r3)))"

definition dict_of_pairs :: "(string \<times> json) list \<Rightarrow> pydict" where
  \<comment> \<open>\<open>dict(pairs)\<close>: a repeated key keeps its first place and takes the last value\<close>
  "dict_of_pairs pairs = foldl (\<lambda>d (k, v). setitem k v d) [] pairs"

fun parse_value :: "nat \<Rightarrow> string \<Rightarrow> error + (json \<times> string)"
  and parse_elements :: "nat \<Rightarrow> json list \<Rightarrow> string \<Rightarrow> error + (json \<times> string)"
  and parse_members :: "nat \<Rightarrow> (string \<times> json) list \<Rightarrow> string \<Rightarrow> error + (json \<times> string)"
where
  "parse_value 0 s = Inl RecursionError"
| "parse_value (Suc n) s =
     (case s of
        [] \<Rightarrow> Inl JSONDecodeError
      | c # cs \<Rightarrow>
          if c = dquote then
            (case scanstring [] cs of
               Inl e \<Rightarrow> Inl e
             | Inr (str, r) \<Rightarrow> Inr (JStr str, r))
          else if c = CHR ''{'' then
            (case skip_ws cs of
               [] \<Rightarrow> Inl JSONDecodeError
             | d # r \<Rightarrow>
                 if d = CHR ''}'' then Inr (JDict [], r)
                 else if d = dquote then parse_members n [] r
                 else Inl JSONDecodeError)
          else if c = CHR ''['' then
            (case skip_ws cs of
               [] \<Rightarrow> Inl JSONDecodeError
             | d # r \<Rightarrow>
                 if d = CHR '']'' then Inr (JList [], r)
                 else parse_elements n [] (d # r))
          else if startswith s ''null'' then Inr (JNull, drop 4 s)
          else if startswith s ''true'' then Inr (JBool True, drop 4 s)
          else if startswith s ''false'' then Inr (JBool False, drop 5 s)
          else if startswith s ''NaN'' then Inr (JFloat ''NaN'', drop 3 s)
          else if startswith s ''Infinity'' then Inr (JFloat ''Infinity'', drop 8 s)
          else if startswith s ''-Infinity'' then Inr (JFloat ''-Infinity'', drop 9 s)
          else (case scan_number s of
                  None \<Rightarrow> Inl JSONDecodeError
                | Some res \<Rightarrow> Inr res))"
| "parse_elements 0 values s = Inl RecursionError"
| "parse_elements (Suc n) values s =
     (case parse_value n s of
        Inl e \<Rightarrow> Inl e
      | Inr (v, r) \<Rightarrow>
          (case skip_ws r of
             [] \<Rightarrow> Inl JSONDecodeError
           | d # r1 \<Rightarrow>
               if d = CHR '']'' then Inr (JList (values @ [v]), r1)
               else if d = CHR '','' then parse_elements n (values @ [v]) (skip_ws r1)
               else Inl JSONDecodeError))"
| "parse_members 0 pairs s = Inl RecursionError"
| "parse_members (Suc n) pairs s =
     (case scanstring [] s of
        Inl e \<Rightarrow> Inl e
      | Inr (key, r) \<Rightarrow>
          (case skip_ws r of
             [] \<Rightarrow> Inl JSONDecodeError
           | c # r1 \<Rightarrow>
               if c \<noteq> CHR '':'' then Inl JSONDecodeError
               else
                 (case parse_value n (skip_ws r1) of
                    Inl e \<Rightarrow> Inl e
                  | Inr (v, r2) \<Rightarrow>
                      (case skip_ws r2 of
                         [] \<Rightarrow> Inl JSONDecodeError
                       | d # r3 \<Rightarrow>
                           if d = CHR ''}'' then Inr (JDict (dict_of_pairs (pairs @ [(key, v)])), r3)
                           else if d \<noteq> CHR '','' then Inl JSONDecodeError
                           else
                             (case skip_ws r3 of
                                [] \<Rightarrow> Inl JSONDecodeError
                              | q # r4 \<Rightarrow>
                                  if q = dquote then parse_members n (pairs @ [(key, v)]) r4
                                  else Inl JSONDecodeError)))))"

definition json_loads :: "string \<Rightarrow> error + json" where
  "json_loads s =
     (case parse_value (2 * length s + 2) (skip_ws s) of
        Inl e \<Rightarrow> Inl e
      | Inr (v, r) \<Rightarrow> if skip_ws r = [] then Inr v else Inl JSONDecodeError)"

section \<open>The type-mix partition (quiz\_generator.py, generate\_quiz, lines 88 to 101)\<close>

text \<open>
  \<open>int(num_questions * 0.7)\<close> is a product of IEEE doubles. The literal \<open>0.7\<close> is the
  double \<open>m07 / 2^53\<close>. A non-negative double is written as a natural number times a power
  of two; \<open>round53\<close> rounds a natural number to 53 significant bits, ties to even (a
  number of \<open>floorlog 2 x\<close> bits loses its last \<open>floorlog 2 x - 53\<close> bits), so
  \<open>round53 a\<close> is \<open>float(a)\<close> and \<open>round53 (f * m07)\<close> is \<open>2^53\<close> times the double product
  of \<open>f\<close> and \<open>0.7\<close>. Converting an integer of \<open>2^1024\<close> or more (after rounding) raises
  \<open>OverflowError\<close>; the product is smaller than its first factor and cannot overflow.
  \<open>int\<close> truncates towards zero, and the sign is carried apart.
\<close>

definition m07 :: nat where
  "m07 = 6305039478318694"

definition round_to :: "nat \<Rightarrow> nat \<Rightarrow> nat" where
  \<comment> \<open>the multiple of \<open>2 ^ s\<close> nearest to \<open>x\<close>, a tie going to the even multiple\<close>
  "round_to s x =
     (let q = x div 2 ^ s; r = x mod 2 ^ s
      in (if 2 ^ s < 2 * r \<or> (2 * r = 2 ^ s \<and> odd q) then q + 1 else q) * 2 ^ s)"

definition round53 :: "nat \<Rightarrow> nat" where
  "round53 x = (if x < 2 ^ 53 then x else round_to (floorlog 2 x - 53) x)"

definition int_times_07 :: "int \<Rightarrow> error + int" where
  \<comment> \<open>\<open>int(n * 0.7)\<close>\<close>
  "int_times_07 n =
     (let f = round53 (nat \<bar>n\<bar>)
      in if 2 ^ 1024 \<le> f then Inl OverflowError
         else Inr (sgn n * int (round53 (f * m07) div 2 ^ 53)))"

definition default_question_types :: "string list" where
  "default_question_types = [''Multiple Choice'', ''True/False'']"

definition type_counts :: "int \<Rightarrow> string list option \<Rightarrow> error + int \<times> int" where
  \<comment> \<open>\<open>(mc_count, tf_count)\<close> as lines 88 to 101 set them\<close>
  "type_counts num_questions question_types =
     (let types = (case question_types of None \<Rightarrow> default_question_types | Some ts \<Rightarrow> ts)
      in if ''Multiple Choice'' \<in> set types \<and> ''True/False'' \<in> set types then
           (case int_times_07 num_questions of
              Inl e \<Rightarrow> Inl e
            | Inr mc_count \<Rightarrow> Inr (mc_count, num_questions - mc_count))
         else if ''Multiple Choice'' \<in> set types then Inr (num_questions, 0)
         else if ''True/False'' \<in> set types then Inr (0, num_questions)
         else Inr (0, 0))"

section \<open>Batches and their retry loop (quiz\_generator.py, lines 117 to 220)\<close>

text \<open>
  The completion service is outside the repository: \<open>llm i rq\<close> is what the \<open>i\<close>-th call of
  the process does on request \<open>rq\<close>, either raising or returning a response whose \<open>text\<close>
  may be \<open>None\<close>. The number of calls made so far is the state that every function
  threads.
\<close>

record request =
  rq_kind :: string
  rq_count :: int
  rq_difficulty :: string
  rq_text :: string
  rq_max_output_tokens :: nat

datatype response = Raises error | Returns "string option"

type_synonym llm = "nat \<Rightarrow> request \<Rightarrow> response"

definition max_retries :: nat where
  "max_retries = 2"

definition try_attempt ::
  "(string \<Rightarrow> error + json) \<Rightarrow> response \<Rightarrow> string \<Rightarrow> int \<Rightarrow> error + pydict list option" where
  \<comment> \<open>the body of the \<open>try\<close> in the loop: \<open>Inr (Some qs)\<close> is \<open>return qs\<close>, \<open>Inr None\<close> falls
      through to the next iteration, \<open>Inl e\<close> is an exception\<close>
  "try_attempt loads resp tag count =
     (case resp of
        Raises e \<Rightarrow> Inl e
      | Returns None \<Rightarrow> Inr None
      | Returns (Some text) \<Rightarrow>
          if text = [] then Inr None
          else (case extract_json_from_response loads text tag of
                  Inl e \<Rightarrow> Inl e
                | Inr questions \<Rightarrow>
                    if int (length questions) = count then Inr (Some questions)
                    else if length questions > 0 then Inr (Some (slice_to questions count))
                    else Inr None))"

fun run_attempts ::
  "(string \<Rightarrow> error + json) \<Rightarrow> llm \<Rightarrow> request \<Rightarrow> string \<Rightarrow> int \<Rightarrow> nat list \<Rightarrow> nat
     \<Rightarrow> pydict list \<times> nat" where
  \<comment> \<open>\<open>for attempt in range(max_retries)\<close> over the attempts still to run, then the final
      \<open>return []\<close>; the result comes with the number of calls made\<close>
  "run_attempts loads llm rq tag count [] calls = ([], calls)"
| "run_attempts loads llm rq tag count (attempt # rest) calls =
     (case try_attempt loads (llm calls rq) tag count of
        Inr (Some questions) \<Rightarrow> (questions, calls + 1)
      | Inr None \<Rightarrow> run_attempts loads llm rq tag count rest (calls + 1)
      | Inl e \<Rightarrow>
          if attempt = max_retries - 1 then ([], calls + 1)
          else run_attempts loads llm rq tag count rest (calls + 1))"

definition generate_multiple_choice_questions ::
  "(string \<Rightarrow> error + json) \<Rightarrow> llm \<Rightarrow> string \<Rightarrow> int \<Rightarrow> string \<Rightarrow> nat \<Rightarrow> pydict list \<times> nat" where
  "generate_multiple_choice_questions loads llm text count difficulty calls =
     run_attempts loads llm
       \<lparr>rq_kind = ''multiple_choice'', rq_count = count, rq_difficulty = difficulty,
        rq_text = text, rq_max_output_tokens = 8000\<rparr>
       ''multiple_choice'' count [0..<max_retries] calls"

definition generate_true_false_questions ::
  "(string \<Rightarrow> error + json) \<Rightarrow> llm \<Rightarrow> string \<Rightarrow> int \<Rightarrow> string \<Rightarrow> nat \<Rightarrow> pydict list \<times> nat" where
  "generate_true_false_questions loads llm text count difficulty calls =
     run_attempts loads llm
       \<lparr>rq_kind = ''true_false'', rq_count = count, rq_difficulty = difficulty,
        rq_text = text, rq_max_output_tokens = 6000\<rparr>
       ''true_false'' count [0..<max_retries] calls"

definition mc_batch ::
  "(string \<Rightarrow> error + json) \<Rightarrow> llm \<Rightarrow> string \<Rightarrow> int \<Rightarrow> string \<Rightarrow> nat \<Rightarrow> pydict list \<times> nat" where
  \<comment> \<open>lines 106 to 108: the sub-step runs only for a positive sub-count\<close>
  "mc_batch loads llm text mc_count difficulty calls =
     (if mc_count > 0 then generate_multiple_choice_questions loads llm text mc_count difficulty calls
      else ([], calls))"

definition tf_batch ::
  "(string \<Rightarrow> error + json) \<Rightarrow> llm \<Rightarrow> string \<Rightarrow> int \<Rightarrow> string \<Rightarrow> nat \<Rightarrow> pydict list \<times> nat" where
  \<comment> \<open>lines 111 to 113\<close>
  "tf_batch loads llm text tf_count difficulty calls =
     (if tf_count > 0 then generate_true_false_questions loads llm text tf_count difficulty calls
      else ([], calls))"

definition generate_quiz ::
  "(string \<Rightarrow> error + json) \<Rightarrow> llm \<Rightarrow> string \<Rightarrow> int \<Rightarrow> string \<Rightarrow> string list option \<Rightarrow> nat
     \<Rightarrow> error + pydict list \<times> nat" where
  "generate_quiz loads llm text num_questions difficulty question_types calls =
     (case type_counts num_questions question_types of
        Inl e \<Rightarrow> Inl e
      | Inr (mc_count, tf_count) \<Rightarrow>
          (let (mc_questions, calls1) = mc_batch loads llm text mc_count difficulty calls;
               (tf_questions, calls2) = tf_batch loads llm text tf_count difficulty calls1
           in Inr (mc_questions @ tf_questions, calls2)))"

section \<open>The two validators (utils.py and quiz\_generator.py)\<close>

definition required_fields :: "string list" where
  "required_fields = [''question'', ''correct_answer'', ''type'']"

definition str_in :: "json option \<Rightarrow> string list \<Rightarrow> bool" where
  \<comment> \<open>\<open>v in ['A', ...]\<close> for the value under a key: only a \<open>str\<close> equals a \<open>str\<close>\<close>
  "str_in v choices \<longleftrightarrow> v \<in> set (map (\<lambda>c. Some (JStr c)) choices)"

definition validate_question_data :: "pydict \<Rightarrow> bool" where
  \<comment> \<open>utils.py, lines 191 to 223\<close>
  "validate_question_data question =
     (if \<not> list_all (\<lambda>field. has_key field question) required_fields then False
      else if map_of question ''type'' = Some (JStr ''multiple_choice'') then
        (case map_of question ''options'' of
           None \<Rightarrow> False
         | Some (JList options) \<Rightarrow>
             if length options \<noteq> 4 then False
             else if \<not> str_in (map_of question ''correct_answer'') [''A'', ''B'', ''C'', ''D'']
             then False
             else True
         | Some _ \<Rightarrow> False)
      else if map_of question ''type'' = Some (JStr ''true_false'') then
        (if \<not> str_in (map_of question ''correct_answer'') [''True'', ''False''] then False
         else True)
      else False)"

definition py_len :: "json \<Rightarrow> error + nat" where
  \<comment> \<open>\<open>len(v)\<close>: defined on \<open>str\<close>, \<open>list\<close> and \<open>dict\<close>, a \<open>TypeError\<close> on the others\<close>
  "py_len v =
     (case v of
        JStr s \<Rightarrow> Inr (length s)
      | JList xs \<Rightarrow> Inr (length xs)
      | JDict d \<Rightarrow> Inr (length d)
      | _ \<Rightarrow> Inl TypeError)"

fun validate_quiz_data :: "pydict list \<Rightarrow> error + bool" where
  \<comment> \<open>quiz\_generator.py, lines 222 to 240\<close>
  "validate_quiz_data [] = Inr True"
| "validate_quiz_data (question # rest) =
     (if \<not> list_all (\<lambda>field. has_key field question) required_fields then Inr False
      else if map_of question ''type'' = Some (JStr ''multiple_choice'') then
        (case map_of question ''options'' of
           None \<Rightarrow> Inr False
         | Some options \<Rightarrow>
             (case py_len options of
                Inl e \<Rightarrow> Inl e
              | Inr n \<Rightarrow>
                  if n \<noteq> 4 then Inr False
                  else if \<not> str_in (map_of question ''correct_answer'') [''A'', ''B'', ''C'', ''D'']
                  then Inr False
                  else validate_quiz_data rest))
      else if map_of question ''type'' = Some (JStr ''true_false'') then
        (if \<not> str_in (map_of question ''correct_answer'') [''True'', ''False''] then Inr False
         else validate_quiz_data rest)
      else validate_quiz_data rest)"

section \<open>PDF extraction and the page that consumes it (pdf\_processor.py, app.py)\<close>

text \<open>
  The two extractors read a file through libraries. \<open>pypdf2\<close> is what
  \<open>_extract_with_pypdf2\<close> does on the file: it returns a text or raises (\<open>Inl\<close> carries
  \<open>str(e)\<close>); \<open>unstructured\<close> is what \<open>_extract_with_unstructured\<close> returns, a text or
  \<open>None\<close>, as it catches every exception itself.
\<close>

definition no_text_message :: string where
  "no_text_message = ''No readable text could be extracted from this PDF.''"

definition extract_text_body :: "string + string \<Rightarrow> string option \<Rightarrow> string + string" where
  "extract_text_body pypdf2 unstructured =
     (case pypdf2 of
        Inl e \<Rightarrow> Inl e
      | Inr text \<Rightarrow>
          if text \<noteq> [] \<and> length (strip text) > 50 then Inr text
          else (case unstructured of
                  None \<Rightarrow> Inr no_text_message
                | Some text2 \<Rightarrow>
                    if text2 \<noteq> [] \<and> length (strip text2) > 100 then Inr text2
                    else Inr no_text_message))"

definition extract_text_from_pdf :: "string + string \<Rightarrow> string option \<Rightarrow> string + string" where
  \<comment> \<open>\<open>except Exception as e: return f"Error processing PDF: {str(e)}"\<close>\<close>
  "extract_text_from_pdf pypdf2 unstructured =
     (case extract_text_body pypdf2 unstructured of
        Inl e \<Rightarrow> Inr (''Error processing PDF: '' @ e)
      | Inr text \<Rightarrow> Inr text)"

record session_state =
  pdf_processed :: bool
  extracted_text :: string

definition initial_state :: session_state where
  \<comment> \<open>app.py, lines 123 to 126\<close>
  "initial_state = \<lparr>pdf_processed = False, extracted_text = []\<rparr>"

datatype notice = Processed | NoTextExtracted | ProcessingError string | Silent

definition process_upload ::
  "session_state \<Rightarrow> (string + string) \<times> string option \<Rightarrow> session_state \<times> notice" where
  \<comment> \<open>app.py, lines 190 to 222, for an uploaded file whose temporary copy was written\<close>
  "process_upload st uploaded_file =
     (if pdf_processed st then (st, Silent)
      else (case extract_text_from_pdf (fst uploaded_file) (snd uploaded_file) of
              Inl e \<Rightarrow> (st, ProcessingError e)
            | Inr extracted \<Rightarrow>
                if strip extracted \<noteq> []
                then (st\<lparr>extracted_text := extracted, pdf_processed := True\<rparr>, Processed)
                else (st, NoTextExtracted)))"

definition generate_button ::
  "(string \<Rightarrow> error + json) \<Rightarrow> llm \<Rightarrow> session_state \<Rightarrow> string \<Rightarrow> int \<Rightarrow> string \<Rightarrow> string list
     \<Rightarrow> nat \<Rightarrow> (error + pydict list \<times> nat) option" where
  \<comment> \<open>app.py, lines 225 to 237: the button exists when a PDF was processed and a key is
      present; a click runs \<open>generate_quiz\<close> on the stored text. \<open>None\<close>: no button\<close>
  "generate_button loads llm st api_key num_questions difficulty_level question_types calls =
     (if pdf_processed st \<and> api_key \<noteq> []
      then Some (generate_quiz loads llm (extracted_text st) num_questions difficulty_level
                   (Some question_types) calls)
      else None)"

section \<open>Notions used to state the properties\<close>

definition json_text_of :: "string \<Rightarrow> string" where
  \<comment> \<open>\<open>json_text\<close> of line 38: from the first \<open>[\<close> to the last \<open>]\<close> of the cleaned text\<close>
  "json_text_of response_text =
     (let text3 = strip_fences response_text
      in slice text3 (str_find text3 CHR ''['') (str_rfind text3 CHR '']'' + 1))"

definition has_array :: "string \<Rightarrow> bool" where
  \<comment> \<open>the test of line 37\<close>
  "has_array response_text \<longleftrightarrow>
     (let text3 = strip_fences response_text
      in str_find text3 CHR ''['' \<noteq> - 1
         \<and> str_rfind text3 CHR '']'' + 1 > str_find text3 CHR ''['')"

definition keeps :: "json \<Rightarrow> bool" where
  \<comment> \<open>an element that recovery keeps: a mapping with both required keys\<close>
  "keeps q \<longleftrightarrow>
     (case q of
        JDict d \<Rightarrow> has_key ''question'' d \<and> has_key ''correct_answer'' d
      | _ \<Rightarrow> False)"

definition kept :: "json list \<Rightarrow> pydict list" where
  \<comment> \<open>the kept elements of a parsed array, in the order of the array\<close>
  "kept qs = List.map_filter (\<lambda>q. case q of JDict d \<Rightarrow> if keeps q then Some d else None
                                   | _ \<Rightarrow> None) qs"

definition quoted :: "string \<Rightarrow> string" where
  "quoted s = squote # s @ [squote]"

definition dquoted :: "string \<Rightarrow> string" where
  "dquoted s = dquote # s @ [dquote]"

definition example_response :: string where
  \<comment> \<open>\<open>[{'question': 'Q?', 'correct_answer': 'A',}]\<close>\<close>
  "example_response =
     ''[{'' @ quoted ''question'' @ '': '' @ quoted ''Q?'' @ '', ''
       @ quoted ''correct_answer'' @ '': '' @ quoted ''A'' @ '',}]''"

definition example_repaired :: string where
  \<comment> \<open>\<open>[{"question": "Q?", "correct_answer": "A"}]\<close>\<close>
  "example_repaired =
     ''[{'' @ dquoted ''question'' @ '': '' @ dquoted ''Q?'' @ '', ''
       @ dquoted ''correct_answer'' @ '': '' @ dquoted ''A'' @ ''}]''"


text \<open>Records on which the validators are run.\<close>

definition mc_question :: "json list \<Rightarrow> string \<Rightarrow> pydict" where
  "mc_question options answer =
     [(''question'', JStr ''Q?''), (''options'', JList options),
      (''correct_answer'', JStr answer), (''type'', JStr ''multiple_choice'')]"

definition essay_question :: pydict where
  "essay_question =
     [(''question'', JStr ''Q?''), (''correct_answer'', JStr ''X''), (''type'', JStr ''essay'')]"

definition four_letter_question :: pydict where
  "four_letter_question =
     [(''question'', JStr ''Q?''), (''options'', JStr ''wxyz''),
      (''correct_answer'', JStr ''A''), (''type'', JStr ''multiple_choice'')]"

definition numbered_question :: pydict where
  "numbered_question =
     [(''question'', JStr ''Q?''), (''options'', JInt 4),
      (''correct_answer'', JStr ''A''), (''type'', JStr ''multiple_choice'')]"

text \<open>
  The two batch functions differ in their request and in the tag they pass to recovery;
  \<open>batch k\<close> is the one of kind \<open>k\<close>. \<open>recovered\<close> is the list of records that one
  attempt recovers from what the service did: empty when the call raised, when the
  response had no text, and when recovery found nothing.
\<close>

definition recovered :: "(string \<Rightarrow> error + json) \<Rightarrow> response \<Rightarrow> string \<Rightarrow> pydict list" where
  "recovered loads resp tag =
     (case resp of
        Raises e \<Rightarrow> []
      | Returns None \<Rightarrow> []
      | Returns (Some text) \<Rightarrow>
          if text = [] then []
          else (case extract_json_from_response loads text tag of
                  Inl e \<Rightarrow> []
                | Inr questions \<Rightarrow> questions))"

datatype kind = MultipleChoice | TrueFalse

definition tag_of :: "kind \<Rightarrow> string" where
  "tag_of k = (case k of MultipleChoice \<Rightarrow> ''multiple_choice'' | TrueFalse \<Rightarrow> ''true_false'')"

definition request_of :: "kind \<Rightarrow> string \<Rightarrow> int \<Rightarrow> string \<Rightarrow> request" where
  "request_of k text count difficulty =
     \<lparr>rq_kind = tag_of k, rq_count = count, rq_difficulty = difficulty, rq_text = text,
      rq_max_output_tokens = (case k of MultipleChoice \<Rightarrow> 8000 | TrueFalse \<Rightarrow> 6000)\<rparr>"

definition batch ::
  "kind \<Rightarrow> (string \<Rightarrow> error + json) \<Rightarrow> llm \<Rightarrow> string \<Rightarrow> int \<Rightarrow> string \<Rightarrow> nat
     \<Rightarrow> pydict list \<times> nat" where
  "batch k =
     (case k of
        MultipleChoice \<Rightarrow> generate_multiple_choice_questions
      | TrueFalse \<Rightarrow> generate_true_false_questions)"

text \<open>
  Two scripted services: one fails on its first two calls and would answer well from the
  third on, the other fails on every call.
\<close>

definition fails_twice :: llm where
  "fails_twice i rq =
     (if i < 2 then Raises (ServiceError ''timeout'') else Returns (Some example_repaired))"

definition always_fails :: llm where
  "always_fails i rq = Raises (ServiceError ''timeout'')"

definition requested :: "string list option \<Rightarrow> string \<Rightarrow> bool" where
  \<comment> \<open>the type name is among the requested types, the default standing for \<open>None\<close>\<close>
  "requested question_types t \<longleftrightarrow>
     t \<in> set (case question_types of None \<Rightarrow> default_question_types | Some ts \<Rightarrow> ts)"

text \<open>
  A response with six records, \<open>[{"question": "1", "correct_answer": "True"}, ...]\<close>, the
  records that recovery makes of it, and three more scripted services.
\<close>

definition record_text :: "char \<Rightarrow> string" where
  "record_text c =
     ''{'' @ dquoted ''question'' @ '': '' @ dquoted [c] @ '', ''
       @ dquoted ''correct_answer'' @ '': '' @ dquoted ''True'' @ ''}''"

definition six_text :: string where
  "six_text =
     ''['' @ record_text CHR ''1'' @ '', '' @ record_text CHR ''2'' @ '', ''
       @ record_text CHR ''3'' @ '', '' @ record_text CHR ''4'' @ '', ''
       @ record_text CHR ''5'' @ '', '' @ record_text CHR ''6'' @ '']''"

definition tagged_record :: "string \<Rightarrow> char \<Rightarrow> pydict" where
  "tagged_record t c =
     [(''question'', JStr [c]), (''correct_answer'', JStr ''True''), (''type'', JStr t)]"

definition answers_six :: llm where
  "answers_six i rq = Returns (Some six_text)"

definition fails_once :: llm where
  "fails_once i rq = (if i = 0 then Raises (ServiceError ''timeout'') else Returns (Some six_text))"

definition answers_once :: llm where
  "answers_once i rq = (if i = 0 then Returns (Some six_text) else Raises (ServiceError ''timeout''))"

section \<open>Properties of response recovery\<close>

lemma str_find_absent: "c \<notin> set s \<Longrightarrow> str_find s c = - 1"
  by (simp add: str_find_def)

lemma str_find_nonneg: "c \<in> set s \<Longrightarrow> 0 \<le> str_find s c"
  by (simp add: str_find_def)

lemma str_rfind_absent: "c \<notin> set s \<Longrightarrow> str_rfind s c = - 1"
  by (simp add: str_rfind_def)

lemma extract_body_unfold:
  "extract_body loads response_text question_type =
     (if has_array response_text
      then (case loads (json_text_of response_text) of
              Inr questions_data \<Rightarrow> Inr (valid_of question_type questions_data)
            | Inl JSONDecodeError \<Rightarrow>
                (case loads (repair (json_text_of response_text)) of
                   Inr questions_data \<Rightarrow> Inr (valid_of question_type questions_data)
                 | Inl JSONDecodeError \<Rightarrow> Inr []
                 | Inl e \<Rightarrow> Inl e)
            | Inl e \<Rightarrow> Inl e)
      else Inr [])"
  unfolding extract_body_def has_array_def json_text_of_def Let_def by simp

lemma has_array_iff:
  "has_array response_text \<longleftrightarrow>
     \<not> (CHR ''['' \<notin> set (strip_fences response_text)
        \<or> CHR '']'' \<notin> set (strip_fences response_text)
        \<or> str_rfind (strip_fences response_text) CHR '']''
            < str_find (strip_fences response_text) CHR ''['')"
proof (cases "CHR ''['' \<in> set (strip_fences response_text)")
  case False
  then show ?thesis
    by (simp add: has_array_def str_find_absent)
next
  case open_in: True
  then have nonneg: "0 \<le> str_find (strip_fences response_text) CHR ''[''"
    by (rule str_find_nonneg)
  show ?thesis
  proof (cases "CHR '']'' \<in> set (strip_fences response_text)")
    case False
    with nonneg show ?thesis
      by (simp add: has_array_def str_rfind_absent)
  next
    case True
    with open_in nonneg show ?thesis
      unfolding has_array_def Let_def by auto
  qed
qed

lemma extract_total:
  "\<exists>qs. extract_json_from_response loads response_text question_type = Inr qs"
  by (simp add: extract_json_from_response_def split: sum.split)

lemma extract_no_array:
  "\<not> has_array response_text \<Longrightarrow>
     extract_json_from_response loads response_text question_type = Inr []"
  by (simp add: extract_json_from_response_def extract_body_unfold)

lemma extract_first_parse:
  "has_array response_text \<Longrightarrow> loads (json_text_of response_text) = Inr v \<Longrightarrow>
     extract_json_from_response loads response_text question_type
       = Inr (valid_of question_type v)"
  by (simp add: extract_json_from_response_def extract_body_unfold)

lemma extract_repaired:
  "has_array response_text \<Longrightarrow> loads (json_text_of response_text) = Inl JSONDecodeError \<Longrightarrow>
     extract_json_from_response loads response_text question_type =
       Inr (case loads (repair (json_text_of response_text)) of
              Inr v \<Rightarrow> valid_of question_type v
            | Inl e \<Rightarrow> [])"
  by (simp add: extract_json_from_response_def extract_body_unfold
      split: sum.split error.split)

lemma extract_other_error:
  "has_array response_text \<Longrightarrow> loads (json_text_of response_text) = Inl e \<Longrightarrow>
     e \<noteq> JSONDecodeError \<Longrightarrow>
     extract_json_from_response loads response_text question_type = Inr []"
  by (cases e) (simp_all add: extract_json_from_response_def extract_body_unfold)

lemma collect_valid_kept:
  "collect_valid question_type qs = map (setitem ''type'' (JStr question_type)) (kept qs)"
  by (induction question_type qs rule: collect_valid.induct)
     (simp_all add: kept_def keeps_def List.map_filter_simps)

lemma kept_filter: "map JDict (kept qs) = filter keeps qs"
  by (induction qs) (auto simp: kept_def keeps_def List.map_filter_simps split: json.splits)

lemma has_key_setitem: "has_key k (setitem k' v d) \<longleftrightarrow> k = k' \<or> has_key k d"
  by (auto simp: has_key_def setitem_def dom_update)

lemma map_of_setitem: "map_of (setitem k v d) k = Some v"
  by (simp add: setitem_def update_conv')

lemma kept_has_keys:
  "d \<in> set (kept qs) \<Longrightarrow> has_key ''question'' d \<and> has_key ''correct_answer'' d"
  by (auto simp: kept_def keeps_def List.map_filter_def split: json.splits if_splits)

lemma valid_of_tagged:
  "q \<in> set (valid_of question_type v) \<Longrightarrow>
     has_key ''question'' q \<and> has_key ''correct_answer'' q
     \<and> map_of q ''type'' = Some (JStr question_type)"
  by (cases v) (auto simp: valid_of_def collect_valid_kept has_key_setitem map_of_setitem
      dest: kept_has_keys)

lemma valid_of_nonempty:
  "valid_of question_type v \<noteq> [] \<Longrightarrow> \<exists>qs. v = JList qs"
  by (cases v) (simp_all add: valid_of_def)

lemma example_first_parse: "json_loads example_response = Inl JSONDecodeError"
  by code_simp

lemma example_has_array: "has_array example_response"
  by code_simp

lemma example_json_text: "json_text_of example_response = example_response"
  by code_simp

lemma example_repair: "repair example_response = example_repaired"
  by code_simp

lemma example_second_parse:
  "json_loads example_repaired
     = Inr (JList [JDict [(''question'', JStr ''Q?''), (''correct_answer'', JStr ''A'')]])"
  by code_simp

lemma example_valid:
  "valid_of ''multiple_choice''
       (JList [JDict [(''question'', JStr ''Q?''), (''correct_answer'', JStr ''A'')]])
     = [[(''question'', JStr ''Q?''), (''correct_answer'', JStr ''A''),
         (''type'', JStr ''multiple_choice'')]]"
  by code_simp

lemma example_extract:
  "extract_json_from_response json_loads example_response ''multiple_choice''
     = Inr [[(''question'', JStr ''Q?''), (''correct_answer'', JStr ''A''),
             (''type'', JStr ''multiple_choice'')]]"
  by (simp add: extract_repaired example_has_array example_json_text example_first_parse
      example_repair example_second_parse example_valid)






text \<open>
  Claim C1. Recovery never raises: for every decoder, response text and type tag,
  \<open>_extract_json_from_response\<close> returns a list. When the text left after the code fence
  is removed has no \<open>[\<close>, or no \<open>]\<close>, or its last \<open>]\<close> lies before its first \<open>[\<close>, the
  list is empty; and when the strict parse fails and the parse of the repaired text fails
  too, with whatever exception, the list is empty.
\<close>

theorem extract_never_raises:
  "(\<exists>qs. extract_json_from_response loads response_text question_type = Inr qs)
   \<and> (CHR ''['' \<notin> set (strip_fences response_text)
        \<or> CHR '']'' \<notin> set (strip_fences response_text)
        \<or> str_rfind (strip_fences response_text) CHR '']''
            < str_find (strip_fences response_text) CHR ''[''
      \<longrightarrow> extract_json_from_response loads response_text question_type = Inr [])
   \<and> (has_array response_text
        \<and> loads (json_text_of response_text) = Inl JSONDecodeError
        \<and> loads (repair (json_text_of response_text)) = Inl e
      \<longrightarrow> extract_json_from_response loads response_text question_type = Inr [])"
proof -
  have total: "\<exists>qs. extract_json_from_response loads response_text question_type = Inr qs"
    by (rule extract_total)
  have none: "extract_json_from_response loads response_text question_type = Inr []"
    if "CHR ''['' \<notin> set (strip_fences response_text)
        \<or> CHR '']'' \<notin> set (strip_fences response_text)
        \<or> str_rfind (strip_fences response_text) CHR '']''
            < str_find (strip_fences response_text) CHR ''[''"
  proof -
    from that have "\<not> has_array response_text"
      by (simp add: has_array_iff)
    then show ?thesis
      by (rule extract_no_array)
  qed
  have failed: "extract_json_from_response loads response_text question_type = Inr []"
    if "has_array response_text
        \<and> loads (json_text_of response_text) = Inl JSONDecodeError
        \<and> loads (repair (json_text_of response_text)) = Inl e"
    using that by (simp add: extract_repaired)
  from total none failed show ?thesis
    by blast
qed

theorem extract_never_raises_witness:
  "CHR ''['' \<notin> set (strip_fences ''Sorry, I cannot help.'')
   \<and> extract_json_from_response json_loads ''Sorry, I cannot help.'' ''true_false'' = Inr []
   \<and> has_array ''x [oops] y''
   \<and> json_loads (json_text_of ''x [oops] y'') = Inl JSONDecodeError
   \<and> json_loads (repair (json_text_of ''x [oops] y'')) = Inl JSONDecodeError
   \<and> extract_json_from_response json_loads ''x [oops] y'' ''true_false'' = Inr []"
proof -
  have h1: "CHR ''['' \<notin> set (strip_fences ''Sorry, I cannot help.'')"
    by code_simp
  have h2: "has_array ''x [oops] y''"
    by code_simp
  have h3: "json_loads (json_text_of ''x [oops] y'') = Inl JSONDecodeError"
    by code_simp
  have h4: "json_loads (repair (json_text_of ''x [oops] y'')) = Inl JSONDecodeError"
    by code_simp
  from extract_never_raises [of json_loads "''Sorry, I cannot help.''" "''true_false''"] h1
  have r1: "extract_json_from_response json_loads ''Sorry, I cannot help.'' ''true_false''
      = Inr []"
    by blast
  from extract_never_raises [of json_loads "''x [oops] y''" "''true_false''" JSONDecodeError]
    h2 h3 h4
  have r2: "extract_json_from_response json_loads ''x [oops] y'' ''true_false'' = Inr []"
    by blast
  from h1 h2 h3 h4 r1 r2 show ?thesis
    by blast
qed



text \<open>
  Claim C10. Every element of the list that recovery returns is a mapping with a
  \<open>question\<close> key, a \<open>correct_answer\<close> key and a \<open>type\<close> key whose value is the expected
  type tag. The list is the parsed array (of the strict parse, or of the parse of the
  repaired text when the strict parse fails) with the elements that are no mapping or lack
  a required key dropped, the others tagged and left in the order of the array; a
  non-empty result always has such an array behind it.
\<close>

theorem extract_records_tagged_in_order:
  assumes "extract_json_from_response loads response_text question_type = Inr result"
  shows "(\<forall>q \<in> set result.
            has_key ''question'' q \<and> has_key ''correct_answer'' q
            \<and> map_of q ''type'' = Some (JStr question_type))
    \<and> (\<forall>qs. has_array response_text \<and> loads (json_text_of response_text) = Inr (JList qs)
          \<longrightarrow> result = map (setitem ''type'' (JStr question_type)) (kept qs)
              \<and> map JDict (kept qs) = filter keeps qs)
    \<and> (\<forall>qs. has_array response_text
            \<and> loads (json_text_of response_text) = Inl JSONDecodeError
            \<and> loads (repair (json_text_of response_text)) = Inr (JList qs)
          \<longrightarrow> result = map (setitem ''type'' (JStr question_type)) (kept qs)
              \<and> map JDict (kept qs) = filter keeps qs)
    \<and> (result \<noteq> [] \<longrightarrow>
          has_array response_text
          \<and> (\<exists>qs. loads (json_text_of response_text) = Inr (JList qs)
                \<or> (loads (json_text_of response_text) = Inl JSONDecodeError
                    \<and> loads (repair (json_text_of response_text)) = Inr (JList qs))))"
proof -
  have tagged: "\<forall>q \<in> set result.
            has_key ''question'' q \<and> has_key ''correct_answer'' q
            \<and> map_of q ''type'' = Some (JStr question_type)"
    using assms
    by (auto simp: extract_json_from_response_def extract_body_unfold
        split: if_splits sum.splits error.splits dest: valid_of_tagged)
  have first: "result = map (setitem ''type'' (JStr question_type)) (kept qs)"
    if "has_array response_text" and "loads (json_text_of response_text) = Inr (JList qs)"
    for qs
    using assms that by (simp add: extract_first_parse valid_of_def collect_valid_kept)
  have second: "result = map (setitem ''type'' (JStr question_type)) (kept qs)"
    if "has_array response_text"
      and "loads (json_text_of response_text) = Inl JSONDecodeError"
      and "loads (repair (json_text_of response_text)) = Inr (JList qs)"
    for qs
    using assms that by (simp add: extract_repaired valid_of_def collect_valid_kept)
  have origin: "has_array response_text
          \<and> (\<exists>qs. loads (json_text_of response_text) = Inr (JList qs)
                \<or> (loads (json_text_of response_text) = Inl JSONDecodeError
                    \<and> loads (repair (json_text_of response_text)) = Inr (JList qs)))"
    if ne: "result \<noteq> []"
  proof -
    from assms ne have ha: "has_array response_text"
      by (auto simp: extract_json_from_response_def extract_body_unfold split: if_splits)
    have "\<exists>qs. loads (json_text_of response_text) = Inr (JList qs)
                \<or> (loads (json_text_of response_text) = Inl JSONDecodeError
                    \<and> loads (repair (json_text_of response_text)) = Inr (JList qs))"
    proof (cases "loads (json_text_of response_text)")
      case (Inr v)
      with assms ha ne have "valid_of question_type v \<noteq> []"
        by (simp add: extract_first_parse)
      then show ?thesis
        using Inr by (auto dest: valid_of_nonempty)
    next
      case (Inl e)
      show ?thesis
      proof (cases "e = JSONDecodeError")
        case False
        with assms ha ne Inl show ?thesis
          by (simp add: extract_other_error)
      next
        case True
        with assms ha ne Inl
        have "(case loads (repair (json_text_of response_text)) of
                Inr v \<Rightarrow> valid_of question_type v | Inl e \<Rightarrow> []) \<noteq> []"
          by (simp add: extract_repaired)
        then obtain v where "loads (repair (json_text_of response_text)) = Inr v"
            and "valid_of question_type v \<noteq> []"
          by (auto split: sum.splits)
        with True Inl show ?thesis
          by (auto dest: valid_of_nonempty)
      qed
    qed
    with ha show ?thesis ..
  qed
  from tagged first second origin kept_filter show ?thesis
    by blast
qed

theorem extract_records_tagged_in_order_witness:
  "extract_json_from_response json_loads example_response ''multiple_choice''
     = Inr [[(''question'', JStr ''Q?''), (''correct_answer'', JStr ''A''),
             (''type'', JStr ''multiple_choice'')]]
   \<and> has_key ''question'' [(''question'', JStr ''Q?''), (''correct_answer'', JStr ''A''),
             (''type'', JStr ''multiple_choice'')]
   \<and> has_key ''correct_answer'' [(''question'', JStr ''Q?''), (''correct_answer'', JStr ''A''),
             (''type'', JStr ''multiple_choice'')]
   \<and> map_of [(''question'', JStr ''Q?''), (''correct_answer'', JStr ''A''),
             (''type'', JStr ''multiple_choice'')] ''type'' = Some (JStr ''multiple_choice'')
   \<and> has_array example_response
   \<and> json_loads (json_text_of example_response) = Inl JSONDecodeError
   \<and> json_loads (repair (json_text_of example_response))
       = Inr (JList [JDict [(''question'', JStr ''Q?''), (''correct_answer'', JStr ''A'')]])
   \<and> [[(''question'', JStr ''Q?''), (''correct_answer'', JStr ''A''),
             (''type'', JStr ''multiple_choice'')]]
      = map (setitem ''type'' (JStr ''multiple_choice''))
          (kept [JDict [(''question'', JStr ''Q?''), (''correct_answer'', JStr ''A'')]])"
proof -
  have h1: "json_loads (json_text_of example_response) = Inl JSONDecodeError"
    by (simp add: example_json_text example_first_parse)
  have h2: "json_loads (repair (json_text_of example_response))
       = Inr (JList [JDict [(''question'', JStr ''Q?''), (''correct_answer'', JStr ''A'')]])"
    by (simp add: example_json_text example_repair example_second_parse)
  note main = extract_records_tagged_in_order [OF example_extract]
  from main have "\<forall>q \<in> set [[(''question'', JStr ''Q?''), (''correct_answer'', JStr ''A''),
             (''type'', JStr ''multiple_choice'')]].
            has_key ''question'' q \<and> has_key ''correct_answer'' q
            \<and> map_of q ''type'' = Some (JStr ''multiple_choice'')"
    by blast
  then have keys: "has_key ''question'' [(''question'', JStr ''Q?''),
        (''correct_answer'', JStr ''A''), (''type'', JStr ''multiple_choice'')]
      \<and> has_key ''correct_answer'' [(''question'', JStr ''Q?''),
        (''correct_answer'', JStr ''A''), (''type'', JStr ''multiple_choice'')]
      \<and> map_of [(''question'', JStr ''Q?''), (''correct_answer'', JStr ''A''),
             (''type'', JStr ''multiple_choice'')] ''type'' = Some (JStr ''multiple_choice'')"
    by (meson list.set_intros(1))
  from main example_has_array h1 h2
  have order: "[[(''question'', JStr ''Q?''), (''correct_answer'', JStr ''A''),
             (''type'', JStr ''multiple_choice'')]]
      = map (setitem ''type'' (JStr ''multiple_choice''))
          (kept [JDict [(''question'', JStr ''Q?''), (''correct_answer'', JStr ''A'')]])"
    by blast
  from keys order example_has_array h1 h2 example_extract show ?thesis
    by blast
qed

lemma has_key_map_of: "has_key k d \<longleftrightarrow> map_of d k \<noteq> None"
  by (simp add: has_key_def map_of_eq_None_iff)

lemma str_in_iff: "str_in v choices \<longleftrightarrow> (\<exists>c \<in> set choices. v = Some (JStr c))"
  by (auto simp: str_in_def)

text \<open>
  Claim C7. \<open>validate_question_data\<close> accepts a record exactly when it has the fields
  \<open>question\<close>, \<open>correct_answer\<close> and \<open>type\<close> and either its type is \<open>multiple_choice\<close>,
  its \<open>options\<close> is a list of exactly 4 entries and its answer is one of A, B, C, D, or its
  type is \<open>true_false\<close> and its answer is \<open>True\<close> or \<open>False\<close>; any other type is
  rejected. A multiple-choice record with 3 options is rejected, one with answer \<open>E\<close> is
  rejected, and one with 4 options and answer \<open>B\<close> is accepted.
\<close>

theorem validate_question_data_iff:
  "(validate_question_data q \<longleftrightarrow>
      has_key ''question'' q \<and> has_key ''correct_answer'' q \<and> has_key ''type'' q
      \<and> (map_of q ''type'' = Some (JStr ''multiple_choice'')
            \<and> (\<exists>options. map_of q ''options'' = Some (JList options) \<and> length options = 4)
            \<and> map_of q ''correct_answer''
                \<in> {Some (JStr ''A''), Some (JStr ''B''), Some (JStr ''C''), Some (JStr ''D'')}
          \<or> map_of q ''type'' = Some (JStr ''true_false'')
            \<and> map_of q ''correct_answer'' \<in> {Some (JStr ''True''), Some (JStr ''False'')}))
   \<and> (map_of q ''type'' = Some (JStr ''multiple_choice'')
        \<and> map_of q ''options'' = Some (JList options) \<and> length options = 3
      \<longrightarrow> \<not> validate_question_data q)
   \<and> (map_of q ''type'' = Some (JStr ''multiple_choice'')
        \<and> map_of q ''correct_answer'' = Some (JStr ''E'')
      \<longrightarrow> \<not> validate_question_data q)
   \<and> (has_key ''question'' q \<and> map_of q ''type'' = Some (JStr ''multiple_choice'')
        \<and> map_of q ''options'' = Some (JList options) \<and> length options = 4
        \<and> map_of q ''correct_answer'' = Some (JStr ''B'')
      \<longrightarrow> validate_question_data q)
   \<and> \<not> validate_question_data (mc_question [JStr ''w'', JStr ''x'', JStr ''y''] ''A'')
   \<and> \<not> validate_question_data (mc_question [JStr ''w'', JStr ''x'', JStr ''y'', JStr ''z''] ''E'')
   \<and> validate_question_data (mc_question [JStr ''w'', JStr ''x'', JStr ''y'', JStr ''z''] ''B'')"
proof -
  have iff: "validate_question_data q \<longleftrightarrow>
      has_key ''question'' q \<and> has_key ''correct_answer'' q \<and> has_key ''type'' q
      \<and> (map_of q ''type'' = Some (JStr ''multiple_choice'')
            \<and> (\<exists>options. map_of q ''options'' = Some (JList options) \<and> length options = 4)
            \<and> map_of q ''correct_answer''
                \<in> {Some (JStr ''A''), Some (JStr ''B''), Some (JStr ''C''), Some (JStr ''D'')}
          \<or> map_of q ''type'' = Some (JStr ''true_false'')
            \<and> map_of q ''correct_answer'' \<in> {Some (JStr ''True''), Some (JStr ''False'')})"
    (is "_ \<longleftrightarrow> ?rhs") for q
    by (auto simp: validate_question_data_def required_fields_def str_in_def
        split: option.splits json.splits)
  have three: "\<not> validate_question_data q"
    if "map_of q ''type'' = Some (JStr ''multiple_choice'')
        \<and> map_of q ''options'' = Some (JList options) \<and> length options = 3"
    using that by (auto simp: iff)
  have e: "\<not> validate_question_data q"
    if "map_of q ''type'' = Some (JStr ''multiple_choice'')
        \<and> map_of q ''correct_answer'' = Some (JStr ''E'')"
    using that by (auto simp: iff)
  have b: "validate_question_data q"
    if "has_key ''question'' q \<and> map_of q ''type'' = Some (JStr ''multiple_choice'')
        \<and> map_of q ''options'' = Some (JList options) \<and> length options = 4
        \<and> map_of q ''correct_answer'' = Some (JStr ''B'')"
    using that by (auto simp: iff has_key_map_of)
  have ex1: "\<not> validate_question_data (mc_question [JStr ''w'', JStr ''x'', JStr ''y''] ''A'')"
    by (simp add: iff mc_question_def)
  have ex2: "\<not> validate_question_data
      (mc_question [JStr ''w'', JStr ''x'', JStr ''y'', JStr ''z''] ''E'')"
    by (simp add: iff mc_question_def)
  have ex3: "validate_question_data
      (mc_question [JStr ''w'', JStr ''x'', JStr ''y'', JStr ''z''] ''B'')"
    by (simp add: iff mc_question_def has_key_def)
  from iff [of q] three e b ex1 ex2 ex3 show ?thesis
    by blast
qed

theorem validate_question_data_iff_witness:
  "map_of (mc_question [JStr ''w'', JStr ''x'', JStr ''y''] ''A'') ''type''
      = Some (JStr ''multiple_choice'')
   \<and> map_of (mc_question [JStr ''w'', JStr ''x'', JStr ''y''] ''A'') ''options''
      = Some (JList [JStr ''w'', JStr ''x'', JStr ''y''])
   \<and> length [JStr ''w'', JStr ''x'', JStr ''y''] = 3
   \<and> \<not> validate_question_data (mc_question [JStr ''w'', JStr ''x'', JStr ''y''] ''A'')
   \<and> map_of (mc_question [JStr ''w'', JStr ''x'', JStr ''y'', JStr ''z''] ''E'') ''correct_answer''
      = Some (JStr ''E'')
   \<and> \<not> validate_question_data (mc_question [JStr ''w'', JStr ''x'', JStr ''y'', JStr ''z''] ''E'')
   \<and> has_key ''question'' (mc_question [JStr ''w'', JStr ''x'', JStr ''y'', JStr ''z''] ''B'')
   \<and> map_of (mc_question [JStr ''w'', JStr ''x'', JStr ''y'', JStr ''z''] ''B'') ''correct_answer''
      = Some (JStr ''B'')
   \<and> validate_question_data (mc_question [JStr ''w'', JStr ''x'', JStr ''y'', JStr ''z''] ''B'')"
proof -
  have t: "map_of (mc_question options answer) ''type'' = Some (JStr ''multiple_choice'')"
    for options answer
    by (simp add: mc_question_def)
  have opt: "map_of (mc_question options answer) ''options'' = Some (JList options)"
    for options answer
    by (simp add: mc_question_def)
  have ans: "map_of (mc_question options answer) ''correct_answer'' = Some (JStr answer)"
    for options answer
    by (simp add: mc_question_def)
  have key: "has_key ''question'' (mc_question options answer)" for options answer
    by (simp add: mc_question_def has_key_def)
  have l3: "length [JStr ''w'', JStr ''x'', JStr ''y''] = 3"
    by simp
  have l4: "length [JStr ''w'', JStr ''x'', JStr ''y'', JStr ''z''] = 4"
    by simp
  from validate_question_data_iff
      [of "mc_question [JStr ''w'', JStr ''x'', JStr ''y''] ''A''"
          "[JStr ''w'', JStr ''x'', JStr ''y'']"] t opt l3
  have r1: "\<not> validate_question_data (mc_question [JStr ''w'', JStr ''x'', JStr ''y''] ''A'')"
    by blast
  from validate_question_data_iff
      [of "mc_question [JStr ''w'', JStr ''x'', JStr ''y'', JStr ''z''] ''E''"] t ans
  have r2: "\<not> validate_question_data
      (mc_question [JStr ''w'', JStr ''x'', JStr ''y'', JStr ''z''] ''E'')"
    by blast
  from validate_question_data_iff
      [of "mc_question [JStr ''w'', JStr ''x'', JStr ''y'', JStr ''z''] ''B''"
          "[JStr ''w'', JStr ''x'', JStr ''y'', JStr ''z'']"] t opt ans key l4
  have r3: "validate_question_data
      (mc_question [JStr ''w'', JStr ''x'', JStr ''y'', JStr ''z''] ''B'')"
    by blast
  from t opt ans key l3 r1 r2 r3 show ?thesis
    by blast
qed

text \<open>
  Claim C8 states that \<open>validate_quiz_data [q]\<close> and \<open>validate_question_data q\<close> give the
  same answer on every record \<open>q\<close>. The code does not: on a record that has the three
  required fields and the type \<open>essay\<close>, the validator of quiz\_generator.py answers
  \<open>True\<close> (its chain of tests has no final \<open>else\<close>) and the validator of utils.py answers
  \<open>False\<close> (its \<open>else\<close> rejects an unknown type).
\<close>

theorem validators_differ:
  "validate_quiz_data [essay_question] = Inr True
   \<and> validate_question_data essay_question = False"
  by (simp add: essay_question_def validate_question_data_def required_fields_def
      has_key_def)

lemma validators_differ_on_options:
  "validate_quiz_data [four_letter_question] = Inr True
   \<and> validate_question_data four_letter_question = False
   \<and> validate_quiz_data [numbered_question] = Inl TypeError
   \<and> validate_question_data numbered_question = False"
  by (simp add: four_letter_question_def numbered_question_def validate_question_data_def
      required_fields_def has_key_def py_len_def str_in_def)

lemma validators_agree:
  assumes "map_of q ''type'' = Some (JStr ''multiple_choice'')
           \<or> map_of q ''type'' = Some (JStr ''true_false'')"
    and "map_of q ''type'' = Some (JStr ''multiple_choice'') \<Longrightarrow>
           map_of q ''options'' = None \<or> (\<exists>options. map_of q ''options'' = Some (JList options))"
  shows "validate_quiz_data [q] = Inr (validate_question_data q)"
  using assms
  by (auto simp: validate_question_data_def py_len_def split: option.splits json.splits)

lemma strip_empty_iff: "strip s = [] \<longleftrightarrow> (\<forall>c \<in> set s. isspace c)"
proof
  assume "strip s = []"
  then have "\<forall>c \<in> set (dropWhile isspace s). isspace c"
    by (simp add: strip_def dropWhile_eq_Nil_conv)
  then have "dropWhile isspace s = []"
    by (metis hd_dropWhile list.set_sel(1))
  then show "\<forall>c \<in> set s. isspace c"
    by (simp add: dropWhile_eq_Nil_conv)
next
  assume "\<forall>c \<in> set s. isspace c"
  then show "strip s = []"
    by (auto simp: strip_def dest: set_dropWhileD)
qed

lemma no_text_message_not_blank: "strip no_text_message \<noteq> []"
  by (simp add: strip_empty_iff no_text_message_def isspace_def)

lemma error_message_not_blank: "strip (''Error processing PDF: '' @ e) \<noteq> []"
  by (simp add: strip_empty_iff isspace_def)

lemma extract_text_never_raises:
  "\<exists>text. extract_text_from_pdf pypdf2 unstructured = Inr text"
  by (simp add: extract_text_from_pdf_def split: sum.split)

lemma extract_text_diagnostic:
  "pypdf2 = Inr text \<Longrightarrow> length (strip text) \<le> 50 \<Longrightarrow>
   unstructured = None \<or> (\<exists>text2. unstructured = Some text2 \<and> length (strip text2) \<le> 100) \<Longrightarrow>
     extract_text_from_pdf pypdf2 unstructured = Inr no_text_message"
  by (auto simp: extract_text_from_pdf_def extract_text_body_def)

lemma extract_text_error:
  "extract_text_from_pdf (Inl e) unstructured = Inr (''Error processing PDF: '' @ e)"
  by (simp add: extract_text_from_pdf_def extract_text_body_def)

lemma failed_extraction_is_processed:
  "pypdf2 = Inr text \<Longrightarrow> length (strip text) \<le> 50 \<Longrightarrow>
   unstructured = None \<or> (\<exists>text2. unstructured = Some text2 \<and> length (strip text2) \<le> 100) \<Longrightarrow>
     process_upload initial_state (pypdf2, unstructured)
       = (\<lparr>pdf_processed = True, extracted_text = no_text_message\<rparr>, Processed)"
  by (simp add: process_upload_def initial_state_def extract_text_diagnostic
      no_text_message_not_blank)

lemma slice_to_nonneg: "0 \<le> count \<Longrightarrow> slice_to xs count = take (nat count) xs"
  by (simp add: slice_to_def clamp_index_def min_def)

lemma attempts_list: "[0..<max_retries] = [0, 1]"
  by (simp add: max_retries_def upt_conv_Cons)

lemma try_attempt_some:
  assumes "recovered loads resp tag \<noteq> []"
  shows "try_attempt loads resp tag count
       = Inr (Some (if int (length (recovered loads resp tag)) = count
                    then recovered loads resp tag
                    else slice_to (recovered loads resp tag) count))"
proof (cases resp)
  case (Raises e)
  with assms show ?thesis
    by (simp add: recovered_def)
next
  case (Returns t)
  show ?thesis
  proof (cases t)
    case None
    with assms Returns show ?thesis
      by (simp add: recovered_def)
  next
    case (Some body)
    with assms Returns have ne: "body \<noteq> []"
      by (auto simp: recovered_def)
    show ?thesis
    proof (cases "extract_json_from_response loads body tag")
      case (Inl e)
      with assms Returns Some ne show ?thesis
        by (simp add: recovered_def)
    next
      case (Inr questions)
      with assms Returns Some ne show ?thesis
        by (simp add: recovered_def try_attempt_def)
    qed
  qed
qed

lemma try_attempt_none:
  "recovered loads resp tag = [] \<Longrightarrow> 0 < count \<Longrightarrow>
     try_attempt loads resp tag count = Inr None \<or> (\<exists>e. try_attempt loads resp tag count = Inl e)"
  by (auto simp: recovered_def try_attempt_def split: response.splits option.splits sum.splits if_splits)

lemma try_attempt_none0:
  "recovered loads resp tag = [] \<Longrightarrow>
     try_attempt loads resp tag count = Inr None \<or> try_attempt loads resp tag count = Inr (Some [])
     \<or> (\<exists>e. try_attempt loads resp tag count = Inl e)"
  by (auto simp: recovered_def try_attempt_def split: response.splits option.splits sum.splits if_splits)

lemma try_attempt_length:
  "try_attempt loads resp tag count = Inr (Some qs) \<Longrightarrow> 0 \<le> count \<Longrightarrow> int (length qs) \<le> count"
  by (auto simp: try_attempt_def slice_to_nonneg split: response.splits option.splits sum.splits if_splits)

lemma run_attempts_two:
  "run_attempts loads llm rq tag count [0, 1] calls =
     (case try_attempt loads (llm calls rq) tag count of
        Inr (Some questions) \<Rightarrow> (questions, calls + 1)
      | _ \<Rightarrow>
        (case try_attempt loads (llm (calls + 1) rq) tag count of
           Inr (Some questions) \<Rightarrow> (questions, calls + 2)
         | _ \<Rightarrow> ([], calls + 2)))"
  by (simp add: max_retries_def split: sum.split option.split)

lemma run_attempts_calls_ge:
  "calls \<le> snd (run_attempts loads llm rq tag count attempts calls)"
proof (induction attempts arbitrary: calls)
  case Nil
  show ?case by simp
next
  case (Cons a attempts)
  from Cons [of "calls + 1"] show ?case
    by (auto split: sum.split option.split)
qed

lemma run_attempts_calls_Cons:
  "calls < snd (run_attempts loads llm rq tag count (attempt # rest) calls)"
  using run_attempts_calls_ge [of "calls + 1" loads llm rq tag count rest]
  by (auto split: sum.split option.split)

lemma run_attempts_calls_le:
  "snd (run_attempts loads llm rq tag count attempts calls) \<le> calls + length attempts"
proof (induction attempts arbitrary: calls)
  case Nil
  show ?case by simp
next
  case (Cons a attempts)
  from Cons [of "calls + 1"] show ?case
    by (auto split: sum.split option.split)
qed

lemma run_attempts_length:
  "0 \<le> count \<Longrightarrow> int (length (fst (run_attempts loads llm rq tag count attempts calls))) \<le> count"
proof (induction attempts arbitrary: calls)
  case Nil
  then show ?case by simp
next
  case (Cons a attempts)
  from Cons.prems Cons.IH [of "calls + 1"] show ?case
    by (auto split: sum.split option.split dest: try_attempt_length)
qed

lemma run_attempts_cong:
  "(\<And>i. calls \<le> i \<Longrightarrow> i < calls + length attempts \<Longrightarrow> llm i rq = llm' i rq) \<Longrightarrow>
     run_attempts loads llm rq tag count attempts calls
       = run_attempts loads llm' rq tag count attempts calls"
proof (induction attempts arbitrary: calls)
  case Nil
  show ?case by simp
next
  case (Cons a attempts)
  have here: "llm calls rq = llm' calls rq"
    by (rule Cons.prems) simp_all
  have rest: "run_attempts loads llm rq tag count attempts (Suc calls)
       = run_attempts loads llm' rq tag count attempts (Suc calls)"
    by (rule Cons.IH) (simp add: Cons.prems)
  show ?case
    by (simp add: here rest split: sum.split option.split)
qed

lemma batch_unfold:
  "batch k loads llm text count difficulty calls
     = run_attempts loads llm (request_of k text count difficulty) (tag_of k) count [0, 1] calls"
  by (cases k)
     (simp_all add: batch_def generate_multiple_choice_questions_def
        generate_true_false_questions_def request_of_def tag_of_def attempts_list)

lemma take_recovered:
  "0 \<le> count \<Longrightarrow>
     (if int (length qs) = count then qs else slice_to qs count)
       = take (min (length qs) (nat count)) qs"
  by (auto simp: slice_to_nonneg min_def)

lemma batch_two:
  "batch k loads llm text count difficulty calls =
     (case try_attempt loads (llm calls (request_of k text count difficulty)) (tag_of k) count of
        Inr (Some questions) \<Rightarrow> (questions, calls + 1)
      | _ \<Rightarrow>
        (case try_attempt loads (llm (calls + 1) (request_of k text count difficulty))
                (tag_of k) count of
           Inr (Some questions) \<Rightarrow> (questions, calls + 2)
         | _ \<Rightarrow> ([], calls + 2)))"
  unfolding batch_unfold by (rule run_attempts_two)

lemma try_attempt_take:
  assumes "0 \<le> count" and "recovered loads resp tag \<noteq> []"
  shows "try_attempt loads resp tag count
       = Inr (Some (take (min (length (recovered loads resp tag)) (nat count))
                      (recovered loads resp tag)))"
  by (simp only: try_attempt_some [OF assms(2)] take_recovered [OF assms(1)])

lemma batch_first:
  assumes "0 \<le> count"
    and "recovered loads (llm calls (request_of k text count difficulty)) (tag_of k) \<noteq> []"
  shows "batch k loads llm text count difficulty calls
     = (take (min (length (recovered loads (llm calls (request_of k text count difficulty))
                     (tag_of k))) (nat count))
          (recovered loads (llm calls (request_of k text count difficulty)) (tag_of k)),
        calls + 1)"
  by (simp add: batch_two try_attempt_take [OF assms])

lemma batch_second:
  assumes "0 < count"
    and "recovered loads (llm calls (request_of k text count difficulty)) (tag_of k) = []"
    and "recovered loads (llm (calls + 1) (request_of k text count difficulty)) (tag_of k) \<noteq> []"
  shows "batch k loads llm text count difficulty calls
     = (take (min (length (recovered loads (llm (calls + 1) (request_of k text count difficulty))
                     (tag_of k))) (nat count))
          (recovered loads (llm (calls + 1) (request_of k text count difficulty)) (tag_of k)),
        calls + 2)"
proof -
  from assms(1) have nonneg: "0 \<le> count"
    by simp
  note second = try_attempt_take [OF nonneg assms(3)]
  from try_attempt_none [OF assms(2) assms(1)] show ?thesis
  proof
    assume "try_attempt loads (llm calls (request_of k text count difficulty)) (tag_of k) count
        = Inr None"
    with second show ?thesis
      by (simp add: batch_two)
  next
    assume "\<exists>e. try_attempt loads (llm calls (request_of k text count difficulty)) (tag_of k)
        count = Inl e"
    then obtain e where "try_attempt loads (llm calls (request_of k text count difficulty))
        (tag_of k) count = Inl e" ..
    with second show ?thesis
      by (simp add: batch_two)
  qed
qed

lemma batch_none:
  assumes "recovered loads (llm calls (request_of k text count difficulty)) (tag_of k) = []"
    and "recovered loads (llm (calls + 1) (request_of k text count difficulty)) (tag_of k) = []"
  shows "fst (batch k loads llm text count difficulty calls) = []"
  using try_attempt_none0 [OF assms(1), of count] try_attempt_none0 [OF assms(2), of count]
  by (auto simp: batch_two)

lemma batch_none_calls:
  assumes "0 < count"
    and "recovered loads (llm calls (request_of k text count difficulty)) (tag_of k) = []"
    and "recovered loads (llm (calls + 1) (request_of k text count difficulty)) (tag_of k) = []"
  shows "batch k loads llm text count difficulty calls = ([], calls + 2)"
  using try_attempt_none [OF assms(2) assms(1)] try_attempt_none [OF assms(3) assms(1)]
  by (auto simp: batch_two)

lemma batch_calls:
  "calls < snd (batch k loads llm text count difficulty calls)
   \<and> snd (batch k loads llm text count difficulty calls) \<le> calls + 2"
  using run_attempts_calls_Cons [of calls loads llm "request_of k text count difficulty" "tag_of k" count 0 "[1]"]
    run_attempts_calls_le [of loads llm "request_of k text count difficulty" "tag_of k" count "[0, 1]" calls]
  unfolding batch_unfold by simp

lemma batch_length:
  "0 \<le> count \<Longrightarrow> int (length (fst (batch k loads llm text count difficulty calls))) \<le> count"
  unfolding batch_unfold by (rule run_attempts_length)

lemma batch_cong:
  assumes "\<forall>rq. llm calls rq = llm' calls rq \<and> llm (calls + 1) rq = llm' (calls + 1) rq"
  shows "batch k loads llm text count difficulty calls
       = batch k loads llm' text count difficulty calls"
proof -
  have "llm i (request_of k text count difficulty) = llm' i (request_of k text count difficulty)"
    if "calls \<le> i" and "i < calls + length [0::nat, 1]" for i
  proof -
    from that have "i = calls \<or> i = calls + 1"
      by auto
    with assms show ?thesis
      by auto
  qed
  then show ?thesis
    unfolding batch_unfold by (rule run_attempts_cong)
qed

section \<open>Properties of the partition arithmetic\<close>

lemma floorlog_shift:
  "2 ^ k \<le> x \<Longrightarrow> floorlog 2 x = floorlog 2 (x div 2 ^ k) + k"
proof (induction k arbitrary: x)
  case 0
  show ?case by simp
next
  case (Suc k)
  then have half: "2 ^ k \<le> x div 2"
    by simp
  from Suc.prems have "0 < x"
    by (metis gr0I not_less zero_less_numeral zero_less_power)
  then have "floorlog 2 x = floorlog 2 (x div 2) + 1"
    by (subst compute_floorlog) simp
  also have "floorlog 2 (x div 2) = floorlog 2 (x div 2 div 2 ^ k) + k"
    using half by (rule Suc.IH)
  also have "x div 2 div 2 ^ k = x div 2 ^ Suc k"
    by (simp add: div_mult2_eq)
  finally show ?case
    by simp
qed

lemma floorlog_big: "2 ^ 53 \<le> x \<Longrightarrow> floorlog 2 x = floorlog 2 (x div 2 ^ 53) + 53"
  by (rule floorlog_shift)

lemma floorlog_small:
  "x < 2 ^ 53 \<Longrightarrow> floorlog 2 x = (if 0 < x then floorlog 2 (x div 2) + 1 else 0)"
  by (subst compute_floorlog) simp

lemmas float_eval =
  int_times_07_def round53_def round_to_def m07_def Let_def floorlog_big floorlog_small

lemma int_times_07_15: "int_times_07 15 = Inr 10"
  by (simp add: float_eval)

lemma int_times_07_90: "int_times_07 90 = Inr 62"
  by (simp add: float_eval)

lemma type_counts_15: "type_counts 15 (Some default_question_types) = Inr (10, 5)"
  by (simp add: type_counts_def default_question_types_def int_times_07_15)


lemma round53_small: "x < 2 ^ 53 \<Longrightarrow> round53 x = x"
  by (simp add: round53_def)

lemma round53_upper: "2 ^ 52 * round53 x \<le> (2 ^ 52 + 1) * x"
proof (cases "x < 2 ^ 53")
  case True
  then show ?thesis
    by (simp add: round53_def)
next
  case False
  define s where "s = floorlog 2 x - 53"
  define q where "q = x div 2 ^ s"
  define c where "c = (2::nat) ^ 52"
  from False have xpos: "0 < x"
    by (simp add: not_less)
  have lo: "2 ^ (floorlog 2 x - 1) \<le> x" and hi: "x < 2 ^ floorlog 2 x"
    using floorlog_bounds [OF xpos, of 2] by simp_all
  have big: "53 < floorlog 2 x"
  proof (rule ccontr)
    assume "\<not> 53 < floorlog 2 x"
    then have "floorlog 2 x \<le> 53"
      by simp
    then have "(2::nat) ^ floorlog 2 x \<le> 2 ^ 53"
      by (rule power_increasing) simp
    with hi False show False
      by simp
  qed
  then have "floorlog 2 x - 1 = s + 52"
    by (simp add: s_def)
  with lo have low: "2 ^ s * c \<le> x"
    by (simp add: power_add c_def)
  have "round53 x \<le> (q + 1) * 2 ^ s"
    using False by (simp add: round53_def round_to_def Let_def s_def q_def)
  then have "c * round53 x \<le> c * ((q + 1) * 2 ^ s)"
    by (rule mult_le_mono2)
  also have "\<dots> = c * (q * 2 ^ s) + 2 ^ s * c"
    by (simp add: algebra_simps)
  also have "\<dots> \<le> c * x + x"
  proof (rule add_mono)
    have "q * 2 ^ s \<le> x"
      by (simp add: q_def)
    then show "c * (q * 2 ^ s) \<le> c * x"
      by (rule mult_le_mono2)
  next
    show "2 ^ s * c \<le> x"
      by (rule low)
  qed
  also have "\<dots> = (c + 1) * x"
    by simp
  finally show ?thesis
    by (simp add: c_def)
qed

lemma round53_no_overflow:
  assumes "a < 2 ^ 1023"
  shows "round53 a < 2 ^ 1024"
proof -
  define c where "c = (2::nat) ^ 52"
  have cpos: "0 < c"
    by (simp add: c_def)
  have "c * round53 a \<le> (c + 1) * a"
    using round53_upper [of a] by (simp add: c_def)
  also have "\<dots> \<le> (c + c) * a"
    using cpos by (intro mult_le_mono1) simp
  also have "\<dots> = c * (2 * a)"
    by (simp add: algebra_simps)
  finally have "round53 a \<le> 2 * a"
    using cpos by simp
  also from assms have "2 * a < 2 * 2 ^ 1023"
    by simp
  also have "(2::nat) * 2 ^ 1023 = 2 ^ 1024"
    by simp
  finally show ?thesis .
qed

lemma product_bound: "round53 (round53 a * m07) div 2 ^ 53 \<le> a"
proof -
  define c where "c = (2::nat) ^ 52"
  define f where "f = round53 a"
  define p where "p = round53 (f * m07)"
  have cpos: "0 < c * c"
    by (simp add: c_def)
  have 1: "c * p \<le> (c + 1) * (f * m07)"
    using round53_upper [of "f * m07"] by (simp add: c_def p_def)
  have 2: "c * f \<le> (c + 1) * a"
    using round53_upper [of a] by (simp add: c_def f_def)
  have num: "(c + 1) * (c + 1) * m07 \<le> c * c * 2 ^ 53"
    by (simp add: c_def m07_def)
  have "c * (c * p) \<le> c * ((c + 1) * (f * m07))"
    using 1 by (rule mult_le_mono2)
  also have "\<dots> = (c + 1) * m07 * (c * f)"
    by (simp only: mult_ac)
  also have "\<dots> \<le> (c + 1) * m07 * ((c + 1) * a)"
    using 2 by (rule mult_le_mono2)
  also have "\<dots> = (c + 1) * (c + 1) * m07 * a"
    by (simp only: mult_ac)
  also have "\<dots> \<le> c * c * 2 ^ 53 * a"
    using num by (rule mult_le_mono1)
  finally have "c * c * p \<le> c * c * (2 ^ 53 * a)"
    by (simp only: mult_ac)
  with cpos have "p \<le> 2 ^ 53 * a"
    by (simp only: mult_le_cancel1)
  then have "p div 2 ^ 53 \<le> (2 ^ 53 * a) div 2 ^ 53"
    by (rule div_le_mono)
  then show ?thesis
    by (simp add: p_def f_def)
qed

lemma int_times_07_small:
  assumes "0 \<le> n" and "n \<le> 89"
  shows "int_times_07 n = Inr (7 * n div 10)"
proof -
  from assms have "n \<in> {0, 1, 2, 3, 4, 5, 6, 7, 8, 9, 10, 11, 12, 13, 14, 15, 16, 17, 18, 19}
      \<or> n \<in> {20, 21, 22, 23, 24, 25, 26, 27, 28, 29, 30, 31, 32, 33, 34, 35, 36, 37, 38, 39}
      \<or> n \<in> {40, 41, 42, 43, 44, 45, 46, 47, 48, 49, 50, 51, 52, 53, 54, 55, 56, 57, 58, 59}
      \<or> n \<in> {60, 61, 62, 63, 64, 65, 66, 67, 68, 69, 70, 71, 72, 73, 74, 75, 76, 77, 78, 79}
      \<or> n \<in> {80, 81, 82, 83, 84, 85, 86, 87, 88, 89}"
    by simp arith
  then show ?thesis
    by (elim disjE insertE emptyE) (simp_all add: float_eval)
qed

lemma round_to_le: "round_to s x \<le> (x div 2 ^ s + 1) * 2 ^ s"
  by (simp add: round_to_def Let_def)

lemma round_to_down: "2 * (x mod 2 ^ s) < 2 ^ s \<Longrightarrow> round_to s x = x div 2 ^ s * 2 ^ s"
  by (simp add: round_to_def Let_def)

lemma floorlog_1024:
  assumes "2 ^ 1023 \<le> a" and "a < 2 ^ 1024"
  shows "floorlog 2 a = 1024"
proof -
  have "floorlog 2 a \<le> 1024"
    using assms(2) by (intro floorlog_leI) simp_all
  moreover have "1024 \<le> floorlog 2 a"
    using assms(1) by (intro floorlog_geI) simp_all
  ultimately show ?thesis
    by simp
qed

lemma round53_top_binade:
  assumes low: "2 ^ 1023 \<le> a" and up: "a + 2 ^ 970 < 2 ^ 1024"
  shows "round53 a < 2 ^ 1024"
proof -
  define p where "p = (2::nat) ^ 970"
  define q where "q = a div (2 * p)"
  define r where "r = a mod (2 * p)"
  have ppos: "0 < p"
    by (simp add: p_def)
  have p971: "(2::nat) ^ 971 = 2 * p"
    by (simp add: p_def)
  have p1024: "(2::nat) ^ 1024 = 2 ^ 53 * (2 * p)"
    by (simp add: p_def)
  have p53: "(2::nat) ^ 53 \<le> 2 ^ 1023"
    by (rule power_increasing) simp_all
  from up have a_less: "a < 2 ^ 1024"
    by simp
  with low have fl: "floorlog 2 a = 1024"
    by (rule floorlog_1024)
  from low p53 have "\<not> a < 2 ^ 53"
    by simp
  then have r53: "round53 a = round_to 971 a"
    by (simp add: round53_def fl)
  have decomp: "a = q * (2 * p) + r"
    unfolding q_def r_def by (rule div_mult_mod_eq [symmetric])
  have r_less: "r < 2 * p"
    using ppos by (simp add: r_def)
  from a_less have "a < 2 ^ 53 * (2 * p)"
    by (simp only: p1024)
  then have q_less: "q < 2 ^ 53"
    using ppos by (simp add: q_def less_mult_imp_div_less mult.commute)
  show ?thesis
  proof (cases "q + 1 < 2 ^ 53")
    case True
    have "round53 a \<le> (q + 1) * (2 * p)"
      using round_to_le [of 971 a] by (simp only: r53 p971 q_def)
    also from True have "(q + 1) * (2 * p) < 2 ^ 53 * (2 * p)"
      using ppos by (simp only: mult_less_cancel2) simp
    finally show ?thesis
      by (simp only: p1024)
  next
    case False
    with q_less have q_eq: "q + 1 = 2 ^ 53"
      by simp
    from up have "a + p < 2 ^ 53 * (2 * p)"
      by (simp only: p1024 p_def)
    then have "q * (2 * p) + r + p < (q + 1) * (2 * p)"
      by (simp only: decomp [symmetric] q_eq)
    then have "r < p"
      by (simp add: algebra_simps)
    then have "2 * (a mod 2 ^ 971) < 2 ^ 971"
      by (simp only: p971 r_def [symmetric])
    then have "round53 a = q * (2 * p)"
      using round_to_down [of a 971] by (simp only: r53 p971 q_def)
    also have "\<dots> < (q + 1) * (2 * p)"
      using ppos by simp
    finally show ?thesis
      by (simp only: q_eq p1024)
  qed
qed

lemma round53_in_range:
  assumes "a + 2 ^ 970 < 2 ^ 1024"
  shows "round53 a < 2 ^ 1024"
proof (cases "a < 2 ^ 1023")
  case True
  then show ?thesis
    by (rule round53_no_overflow)
next
  case False
  then have "2 ^ 1023 \<le> a"
    by simp
  from this assms show ?thesis
    by (rule round53_top_binade)
qed


lemma int_times_07_in_range:
  assumes "\<bar>n\<bar> + 2 ^ 970 < 2 ^ 1024"
  shows "int_times_07 n = Inr (sgn n * int (round53 (round53 (nat \<bar>n\<bar>) * m07) div 2 ^ 53))"
proof -
  from assms have "int (nat \<bar>n\<bar> + 2 ^ 970) < int (2 ^ 1024)"
    by simp
  then have "nat \<bar>n\<bar> + 2 ^ 970 < 2 ^ 1024"
    by (simp only: of_nat_less_iff)
  then have "round53 (nat \<bar>n\<bar>) < 2 ^ 1024"
    by (rule round53_in_range)
  then show ?thesis
    by (simp add: int_times_07_def Let_def)
qed

lemma int_times_07_result:
  assumes "0 \<le> n" and "int_times_07 n = Inr mc"
  shows "0 \<le> mc \<and> mc \<le> n"
proof -
  from assms(2) have eq: "mc = sgn n * int (round53 (round53 (nat \<bar>n\<bar>) * m07) div 2 ^ 53)"
    by (simp add: int_times_07_def Let_def split: if_splits)
  have "int (round53 (round53 (nat \<bar>n\<bar>) * m07) div 2 ^ 53) \<le> int (nat \<bar>n\<bar>)"
    using product_bound [of "nat \<bar>n\<bar>"] by (simp only: of_nat_le_iff)
  with assms(1) show ?thesis
    unfolding eq by (cases "n = 0") (simp_all add: sgn_if)
qed

text \<open>
  The bound of \<open>int_times_07_in_range\<close> is exact: the conversion of \<open>2^1024 - 2^970\<close> to
  a double overflows.
\<close>

lemma int_times_07_overflow: "int_times_07 (2 ^ 1024 - 2 ^ 970) = Inl OverflowError"
  by (simp add: float_eval)

section \<open>Properties of batches, of the partition and of the orchestrator\<close>

lemma six_parsed:
  "extract_json_from_response json_loads six_text ''true_false''
     = Inr (map (tagged_record ''true_false'') ''123456'')"
  by code_simp

lemma six_parsed_mc:
  "extract_json_from_response json_loads six_text ''multiple_choice''
     = Inr (map (tagged_record ''multiple_choice'') ''123456'')"
  by code_simp

lemma six_text_not_empty: "six_text \<noteq> []"
  by (simp add: six_text_def)

lemma six_recovered:
  "recovered json_loads (Returns (Some six_text)) ''true_false''
     = map (tagged_record ''true_false'') ''123456''"
  by (simp add: recovered_def six_text_not_empty six_parsed)

lemma six_recovered_mc:
  "recovered json_loads (Returns (Some six_text)) ''multiple_choice''
     = map (tagged_record ''multiple_choice'') ''123456''"
  by (simp add: recovered_def six_text_not_empty six_parsed_mc)

lemma example_recovered:
  "recovered json_loads (Returns (Some example_repaired)) ''multiple_choice''
     = [[(''question'', JStr ''Q?''), (''correct_answer'', JStr ''A''),
         (''type'', JStr ''multiple_choice'')]]"
  by code_simp

lemma raises_recovered: "recovered loads (Raises e) tag = []"
  by (simp add: recovered_def)

lemma batch_kinds:
  "batch MultipleChoice = generate_multiple_choice_questions
   \<and> batch TrueFalse = generate_true_false_questions"
  by (simp add: batch_def)

text \<open>
  Claim C2. A batch invokes the service at most 2 times. When neither of the first two
  attempts recovers a record (the call raised, the response had no text, or recovery found
  nothing) the batch returns the empty list, and for a positive count it has then made
  exactly 2 invocations. The result of a batch depends on the service only through its
  calls number \<open>calls\<close> and \<open>calls + 1\<close>: a third call, whatever it would answer, is never
  made.
\<close>

theorem at_most_two_attempts:
  "snd (batch k loads llm text count difficulty calls) \<le> calls + 2
   \<and> (recovered loads (llm calls (request_of k text count difficulty)) (tag_of k) = []
        \<and> recovered loads (llm (calls + 1) (request_of k text count difficulty)) (tag_of k) = []
      \<longrightarrow> fst (batch k loads llm text count difficulty calls) = [])
   \<and> (0 < count
        \<and> recovered loads (llm calls (request_of k text count difficulty)) (tag_of k) = []
        \<and> recovered loads (llm (calls + 1) (request_of k text count difficulty)) (tag_of k) = []
      \<longrightarrow> batch k loads llm text count difficulty calls = ([], calls + 2))
   \<and> ((\<forall>rq. llm calls rq = llm' calls rq \<and> llm (calls + 1) rq = llm' (calls + 1) rq)
      \<longrightarrow> batch k loads llm text count difficulty calls
            = batch k loads llm' text count difficulty calls)
   \<and> batch MultipleChoice = generate_multiple_choice_questions
   \<and> batch TrueFalse = generate_true_false_questions"
  using batch_calls [of calls k loads llm "text" count difficulty]
    batch_none [of loads llm calls k "text" count difficulty]
    batch_none_calls [of count loads llm calls k "text" difficulty]
    batch_cong [of llm calls llm' k loads "text" count difficulty]
    batch_kinds
  by blast

theorem at_most_two_attempts_witness:
  "recovered json_loads (fails_twice 0 (request_of MultipleChoice ''source'' 1 ''Medium''))
       (tag_of MultipleChoice) = []
   \<and> recovered json_loads (fails_twice (0 + 1) (request_of MultipleChoice ''source'' 1 ''Medium''))
       (tag_of MultipleChoice) = []
   \<and> recovered json_loads (fails_twice 2 (request_of MultipleChoice ''source'' 1 ''Medium''))
       (tag_of MultipleChoice)
       = [[(''question'', JStr ''Q?''), (''correct_answer'', JStr ''A''),
           (''type'', JStr ''multiple_choice'')]]
   \<and> generate_multiple_choice_questions json_loads fails_twice ''source'' 1 ''Medium'' 0
       = ([], 2)
   \<and> generate_multiple_choice_questions json_loads fails_twice ''source'' 1 ''Medium'' 0
       = generate_multiple_choice_questions json_loads always_fails ''source'' 1 ''Medium'' 0"
proof -
  let ?rq = "request_of MultipleChoice ''source'' 1 ''Medium''"
  have h1: "recovered json_loads (fails_twice 0 ?rq) (tag_of MultipleChoice) = []"
    by (simp add: fails_twice_def raises_recovered)
  have h2: "recovered json_loads (fails_twice (0 + 1) ?rq) (tag_of MultipleChoice) = []"
    by (simp add: fails_twice_def raises_recovered)
  have h3: "recovered json_loads (fails_twice 2 ?rq) (tag_of MultipleChoice)
       = [[(''question'', JStr ''Q?''), (''correct_answer'', JStr ''A''),
           (''type'', JStr ''multiple_choice'')]]"
    by (simp add: fails_twice_def tag_of_def example_recovered)
  have h4: "\<forall>rq. fails_twice 0 rq = always_fails 0 rq
      \<and> fails_twice (0 + 1) rq = always_fails (0 + 1) rq"
    by (simp add: fails_twice_def always_fails_def)
  have h5: "(0::int) < 1"
    by simp
  note main = at_most_two_attempts
    [of MultipleChoice json_loads fails_twice "''source''" 1 "''Medium''" 0 always_fails]
  from main h1 h2 h5
  have r1: "batch MultipleChoice json_loads fails_twice ''source'' 1 ''Medium'' 0 = ([], 0 + 2)"
    by blast
  from main h4
  have r2: "batch MultipleChoice json_loads fails_twice ''source'' 1 ''Medium'' 0
      = batch MultipleChoice json_loads always_fails ''source'' 1 ''Medium'' 0"
    by blast
  from main have k: "batch MultipleChoice = generate_multiple_choice_questions"
    by blast
  from h1 h2 h3 r1 r2 show ?thesis
    unfolding k by simp
qed

text \<open>
  Claim C3. Let \<open>first\<close> and \<open>second\<close> be what the first and the second attempt of a batch
  recover. For a positive count: when \<open>first\<close> has exactly \<open>count\<close> records the batch
  returns it unchanged after one invocation; when the first attempt recovers nothing and
  \<open>second\<close> is not empty the batch returns the first \<open>min (length second) count\<close> records
  of \<open>second\<close> after two invocations. For a non-negative count: when \<open>first\<close> is not empty
  the batch returns its first \<open>min (length first) count\<close> records, in their order, after one
  invocation; and the result of a batch never has more than \<open>count\<close> records.
\<close>

theorem first_yield_is_returned:
  fixes k loads llm source count difficulty calls
  defines "first \<equiv> recovered loads (llm calls (request_of k source count difficulty)) (tag_of k)"
    and "second \<equiv> recovered loads (llm (calls + 1) (request_of k source count difficulty)) (tag_of k)"
  shows "(0 < count \<and> int (length first) = count
            \<longrightarrow> batch k loads llm source count difficulty calls = (first, calls + 1))
   \<and> (0 \<le> count \<and> first \<noteq> []
        \<longrightarrow> batch k loads llm source count difficulty calls
              = (take (min (length first) (nat count)) first, calls + 1))
   \<and> (0 < count \<and> first = [] \<and> second \<noteq> []
        \<longrightarrow> batch k loads llm source count difficulty calls
              = (take (min (length second) (nat count)) second, calls + 2))
   \<and> (0 \<le> count
        \<longrightarrow> int (length (fst (batch k loads llm source count difficulty calls))) \<le> count)
   \<and> batch MultipleChoice = generate_multiple_choice_questions
   \<and> batch TrueFalse = generate_true_false_questions"
proof -
  have part: "batch k loads llm source count difficulty calls
              = (take (min (length first) (nat count)) first, calls + 1)"
    if "0 \<le> count \<and> first \<noteq> []"
    using that batch_first [of count loads llm calls k source difficulty]
    by (simp add: first_def)
  have exact: "batch k loads llm source count difficulty calls = (first, calls + 1)"
    if "0 < count \<and> int (length first) = count"
  proof -
    from that have "0 \<le> count \<and> first \<noteq> []"
      by auto
    moreover from that have "nat count = length first"
      by auto
    ultimately show ?thesis
      using part by simp
  qed
  have later: "batch k loads llm source count difficulty calls
              = (take (min (length second) (nat count)) second, calls + 2)"
    if "0 < count \<and> first = [] \<and> second \<noteq> []"
    using that batch_second [of count loads llm calls k source difficulty]
    by (simp add: first_def second_def)
  have bound: "int (length (fst (batch k loads llm source count difficulty calls))) \<le> count"
    if "0 \<le> count"
    using that by (rule batch_length)
  from part exact later bound batch_kinds show ?thesis
    by blast
qed

theorem first_yield_is_returned_witness:
  "recovered json_loads (answers_six 0 (request_of TrueFalse ''source'' 5 ''Easy''))
       (tag_of TrueFalse) = map (tagged_record ''true_false'') ''123456''
   \<and> generate_true_false_questions json_loads answers_six ''source'' 5 ''Easy'' 0
       = (map (tagged_record ''true_false'') ''12345'', 1)
   \<and> generate_true_false_questions json_loads answers_six ''source'' 6 ''Easy'' 0
       = (map (tagged_record ''true_false'') ''123456'', 1)
   \<and> recovered json_loads (fails_once 0 (request_of TrueFalse ''source'' 5 ''Easy''))
       (tag_of TrueFalse) = []
   \<and> generate_true_false_questions json_loads fails_once ''source'' 5 ''Easy'' 0
       = (map (tagged_record ''true_false'') ''12345'', 2)
   \<and> int (length (fst (generate_true_false_questions json_loads answers_six ''source'' 5
           ''Easy'' 0))) \<le> 5"
proof -
  have f5: "recovered json_loads (answers_six 0 (request_of TrueFalse ''source'' 5 ''Easy''))
       (tag_of TrueFalse) = map (tagged_record ''true_false'') ''123456''"
    by (simp add: answers_six_def tag_of_def six_recovered)
  have f6: "recovered json_loads (answers_six 0 (request_of TrueFalse ''source'' 6 ''Easy''))
       (tag_of TrueFalse) = map (tagged_record ''true_false'') ''123456''"
    by (simp add: answers_six_def tag_of_def six_recovered)
  have g1: "recovered json_loads (fails_once 0 (request_of TrueFalse ''source'' 5 ''Easy''))
       (tag_of TrueFalse) = []"
    by (simp add: fails_once_def raises_recovered)
  have g2: "recovered json_loads (fails_once (0 + 1) (request_of TrueFalse ''source'' 5 ''Easy''))
       (tag_of TrueFalse) = map (tagged_record ''true_false'') ''123456''"
    by (simp add: fails_once_def tag_of_def six_recovered)
  note five = first_yield_is_returned [where k = TrueFalse and loads = json_loads
      and llm = answers_six and source = "''source''" and count = 5 and difficulty = "''Easy''"
      and calls = 0]
  note six = first_yield_is_returned [where k = TrueFalse and loads = json_loads
      and llm = answers_six and source = "''source''" and count = 6 and difficulty = "''Easy''"
      and calls = 0]
  note late = first_yield_is_returned [where k = TrueFalse and loads = json_loads
      and llm = fails_once and source = "''source''" and count = 5 and difficulty = "''Easy''"
      and calls = 0]
  from five have k: "batch TrueFalse = generate_true_false_questions"
    by blast
  from five have r1: "generate_true_false_questions json_loads answers_six ''source'' 5 ''Easy'' 0
       = (map (tagged_record ''true_false'') ''12345'', 1)"
    unfolding f5 k by simp
  from six have r2: "generate_true_false_questions json_loads answers_six ''source'' 6 ''Easy'' 0
       = (map (tagged_record ''true_false'') ''123456'', 1)"
    unfolding f6 k by simp
  from late have r3: "generate_true_false_questions json_loads fails_once ''source'' 5 ''Easy'' 0
       = (map (tagged_record ''true_false'') ''12345'', 2)"
    unfolding g1 g2 k by simp
  from five have r4: "int (length (fst (generate_true_false_questions json_loads answers_six
      ''source'' 5 ''Easy'' 0))) \<le> 5"
    unfolding k by simp
  from f5 g1 r1 r2 r3 r4 show ?thesis
    by blast
qed

lemma type_counts_cases:
  assumes "type_counts N types = Inr (mc, tf)"
  shows "(requested types ''Multiple Choice'' \<and> requested types ''True/False''
            \<longrightarrow> int_times_07 N = Inr mc \<and> tf = N - mc)
     \<and> (requested types ''Multiple Choice'' \<and> \<not> requested types ''True/False''
            \<longrightarrow> mc = N \<and> tf = 0)
     \<and> (\<not> requested types ''Multiple Choice'' \<and> requested types ''True/False''
            \<longrightarrow> mc = 0 \<and> tf = N)
     \<and> (\<not> requested types ''Multiple Choice'' \<and> \<not> requested types ''True/False''
            \<longrightarrow> mc = 0 \<and> tf = 0)"
  using assms
  by (auto simp: type_counts_def requested_def Let_def split: if_splits sum.splits)

lemma type_counts_single:
  "(requested types ''Multiple Choice'' \<and> \<not> requested types ''True/False''
      \<longrightarrow> type_counts N types = Inr (N, 0))
   \<and> (\<not> requested types ''Multiple Choice'' \<and> requested types ''True/False''
      \<longrightarrow> type_counts N types = Inr (0, N))
   \<and> (\<not> requested types ''Multiple Choice'' \<and> \<not> requested types ''True/False''
      \<longrightarrow> type_counts N types = Inr (0, 0))"
  by (simp add: type_counts_def requested_def Let_def)

lemma type_counts_both:
  assumes "requested types ''Multiple Choice'' \<and> requested types ''True/False''"
  shows "type_counts N types
     = (case int_times_07 N of Inl e \<Rightarrow> Inl e | Inr mc_count \<Rightarrow> Inr (mc_count, N - mc_count))"
  using assms by (simp add: type_counts_def requested_def Let_def)

lemma type_counts_returns:
  assumes "requested types ''Multiple Choice'' \<and> requested types ''True/False''
           \<longrightarrow> \<bar>N\<bar> < 2 ^ 1024 - 2 ^ 970"
  shows "\<exists>mc tf. type_counts N types = Inr (mc, tf)"
proof (cases "requested types ''Multiple Choice'' \<and> requested types ''True/False''")
  case True
  with assms have "\<bar>N\<bar> + 2 ^ 970 < 2 ^ 1024"
    by simp
  from int_times_07_in_range [OF this] True show ?thesis
    by (simp add: type_counts_both)
next
  case False
  with type_counts_single [of types N] show ?thesis
    by blast
qed

lemma type_counts_range:
  assumes "0 \<le> N" and "type_counts N types = Inr (mc, tf)"
  shows "0 \<le> mc \<and> 0 \<le> tf \<and> mc + tf \<le> N"
proof (cases "requested types ''Multiple Choice'' \<and> requested types ''True/False''")
  case True
  with type_counts_cases [OF assms(2)] have "int_times_07 N = Inr mc" and "tf = N - mc"
    by simp_all
  with int_times_07_result [OF assms(1), of mc] show ?thesis
    by auto
next
  case False
  with type_counts_cases [OF assms(2)] assms(1) show ?thesis
    by auto
qed

lemma mc_batch_skipped:
  "mc_count \<le> 0 \<Longrightarrow> mc_batch loads llm src mc_count difficulty calls = ([], calls)"
  by (simp add: mc_batch_def)

lemma tf_batch_skipped:
  "tf_count \<le> 0 \<Longrightarrow> tf_batch loads llm src tf_count difficulty calls = ([], calls)"
  by (simp add: tf_batch_def)

lemma mc_batch_length:
  "0 \<le> mc_count \<Longrightarrow>
     int (length (fst (mc_batch loads llm src mc_count difficulty calls))) \<le> mc_count"
  using batch_length [of mc_count MultipleChoice loads llm src difficulty calls]
  by (simp add: mc_batch_def batch_kinds)

lemma tf_batch_length:
  "0 \<le> tf_count \<Longrightarrow>
     int (length (fst (tf_batch loads llm src tf_count difficulty calls))) \<le> tf_count"
  using batch_length [of tf_count TrueFalse loads llm src difficulty calls]
  by (simp add: tf_batch_def batch_kinds)

lemma generate_quiz_unfold:
  "type_counts N types = Inr (mc, tf) \<Longrightarrow>
     generate_quiz loads llm src N difficulty types calls
       = Inr (fst (mc_batch loads llm src mc difficulty calls)
                @ fst (tf_batch loads llm src tf difficulty
                        (snd (mc_batch loads llm src mc difficulty calls))),
              snd (tf_batch loads llm src tf difficulty
                        (snd (mc_batch loads llm src mc difficulty calls))))"
  by (simp add: generate_quiz_def Let_def split_def)

lemma batch_positive_calls:
  "0 < mc_count \<Longrightarrow> calls < snd (mc_batch loads llm src mc_count difficulty calls)"
  using batch_calls [of calls MultipleChoice loads llm src mc_count difficulty]
  by (simp add: mc_batch_def batch_kinds)

lemma tf_batch_calls_ge: "calls \<le> snd (tf_batch loads llm src tf_count difficulty calls)"
  using batch_calls [of calls TrueFalse loads llm src tf_count difficulty]
  by (simp add: tf_batch_def batch_kinds)

lemma extract_tagged:
  assumes "extract_json_from_response loads response_text question_type = Inr result"
    and "q \<in> set result"
  shows "map_of q ''type'' = Some (JStr question_type)"
  using assms
  by (auto simp: extract_json_from_response_def extract_body_unfold
      split: if_splits sum.splits error.splits dest: valid_of_tagged)

lemma try_attempt_tagged:
  assumes "try_attempt loads resp question_type count = Inr (Some questions)"
    and "q \<in> set questions"
  shows "map_of q ''type'' = Some (JStr question_type)"
proof (cases resp)
  case (Raises e)
  with assms(1) show ?thesis
    by (simp add: try_attempt_def)
next
  case (Returns t)
  show ?thesis
  proof (cases t)
    case None
    with assms(1) Returns show ?thesis
      by (simp add: try_attempt_def)
  next
    case (Some body)
    with assms(1) Returns obtain recovered_questions
      where ex: "extract_json_from_response loads body question_type = Inr recovered_questions"
        and sub: "questions = recovered_questions \<or> questions = slice_to recovered_questions count"
      by (auto simp: try_attempt_def split: if_splits sum.splits)
    from sub assms(2) have "q \<in> set recovered_questions"
      by (auto simp: slice_to_def dest: in_set_takeD)
    with ex show ?thesis
      by (rule extract_tagged)
  qed
qed

lemma run_attempts_tagged:
  "q \<in> set (fst (run_attempts loads llm rq question_type count attempts calls)) \<Longrightarrow>
     map_of q ''type'' = Some (JStr question_type)"
proof (induction attempts arbitrary: calls)
  case Nil
  then show ?case by simp
next
  case (Cons a attempts)
  show ?case
  proof (cases "try_attempt loads (llm calls rq) question_type count")
    case (Inl e)
    with Cons.prems Cons.IH [of "calls + 1"] show ?thesis
      by (auto split: if_splits)
  next
    case (Inr r)
    show ?thesis
    proof (cases r)
      case None
      with Inr Cons.prems Cons.IH [of "calls + 1"] show ?thesis
        by simp
    next
      case (Some questions)
      with Inr Cons.prems have "q \<in> set questions"
        by simp
      with Inr Some show ?thesis
        by (auto dest: try_attempt_tagged)
    qed
  qed
qed

lemma mc_questions_tagged:
  "q \<in> set (fst (generate_multiple_choice_questions loads llm src count difficulty calls)) \<Longrightarrow>
     map_of q ''type'' = Some (JStr ''multiple_choice'')"
  unfolding generate_multiple_choice_questions_def by (rule run_attempts_tagged)

lemma tf_questions_tagged:
  "q \<in> set (fst (generate_true_false_questions loads llm src count difficulty calls)) \<Longrightarrow>
     map_of q ''type'' = Some (JStr ''true_false'')"
  unfolding generate_true_false_questions_def by (rule run_attempts_tagged)

lemma mc_batch_tagged:
  "q \<in> set (fst (mc_batch loads llm src mc_count difficulty calls)) \<Longrightarrow>
     map_of q ''type'' = Some (JStr ''multiple_choice'')"
  by (cases "0 < mc_count") (auto simp: mc_batch_def dest: mc_questions_tagged)

lemma tf_batch_tagged:
  "q \<in> set (fst (tf_batch loads llm src tf_count difficulty calls)) \<Longrightarrow>
     map_of q ''type'' = Some (JStr ''true_false'')"
  by (cases "0 < tf_count") (auto simp: tf_batch_def dest: tf_questions_tagged)

lemma answers_six_mc:
  "generate_multiple_choice_questions json_loads answers_six ''source'' 14 ''Easy'' 0
     = (map (tagged_record ''multiple_choice'') ''123456'', 1)"
proof -
  have "recovered json_loads (answers_six 0 (request_of MultipleChoice ''source'' 14 ''Easy''))
      (tag_of MultipleChoice) = map (tagged_record ''multiple_choice'') ''123456''"
    by (simp add: answers_six_def tag_of_def six_recovered_mc)
  with batch_first [of 14 json_loads answers_six 0 MultipleChoice "''source''" "''Easy''"]
  show ?thesis
    by (simp add: batch_kinds)
qed

lemma answers_six_tf:
  "generate_true_false_questions json_loads answers_six ''source'' 6 ''Easy'' 1
     = (map (tagged_record ''true_false'') ''123456'', 2)"
proof -
  have "recovered json_loads (answers_six 1 (request_of TrueFalse ''source'' 6 ''Easy''))
      (tag_of TrueFalse) = map (tagged_record ''true_false'') ''123456''"
    by (simp add: answers_six_def tag_of_def six_recovered)
  with batch_first [of 6 json_loads answers_six 1 TrueFalse "''source''" "''Easy''"]
  show ?thesis
    by (simp add: batch_kinds)
qed

lemma answers_six_tf_only:
  "generate_true_false_questions json_loads answers_six ''source'' 20 ''Easy'' 0
     = (map (tagged_record ''true_false'') ''123456'', 1)"
proof -
  have "recovered json_loads (answers_six 0 (request_of TrueFalse ''source'' 20 ''Easy''))
      (tag_of TrueFalse) = map (tagged_record ''true_false'') ''123456''"
    by (simp add: answers_six_def tag_of_def six_recovered)
  with batch_first [of 20 json_loads answers_six 0 TrueFalse "''source''" "''Easy''"]
  show ?thesis
    by (simp add: batch_kinds)
qed

lemma answers_once_mc:
  "generate_multiple_choice_questions json_loads answers_once ''source'' 14 ''Easy'' 0
     = (map (tagged_record ''multiple_choice'') ''123456'', 1)"
proof -
  have "recovered json_loads (answers_once 0 (request_of MultipleChoice ''source'' 14 ''Easy''))
      (tag_of MultipleChoice) = map (tagged_record ''multiple_choice'') ''123456''"
    by (simp add: answers_once_def tag_of_def six_recovered_mc)
  with batch_first [of 14 json_loads answers_once 0 MultipleChoice "''source''" "''Easy''"]
  show ?thesis
    by (simp add: batch_kinds)
qed

lemma answers_once_tf:
  "generate_true_false_questions json_loads answers_once ''source'' 6 ''Easy'' 1 = ([], 3)"
proof -
  have "recovered json_loads (answers_once 1 (request_of TrueFalse ''source'' 6 ''Easy''))
      (tag_of TrueFalse) = []"
    and "recovered json_loads (answers_once (1 + 1) (request_of TrueFalse ''source'' 6 ''Easy''))
      (tag_of TrueFalse) = []"
    by (simp_all add: answers_once_def raises_recovered)
  with batch_none_calls [of 6 json_loads answers_once 1 TrueFalse "''source''" "''Easy''"]
  show ?thesis
    by (simp add: batch_kinds)
qed

lemma type_counts_20: "type_counts 20 None = Inr (14, 6)"
  by (simp add: type_counts_def default_question_types_def int_times_07_small)

text \<open>
  Claim C4 as stated fails on a type set that names neither type: both sub-counts keep
  their initial 0, so for \<open>N = 10\<close> they do not sum to \<open>N\<close>.
\<close>

theorem type_counts_counterexample:
  "type_counts 10 (Some []) = Inr (0, 0) \<and> (0::int) + 0 \<noteq> 10"
  by (simp add: type_counts_def)

text \<open>
  Claim C4, amended. Let \<open>N \<ge> 0\<close>. When only one of the two types is requested it
  receives all \<open>N\<close> and the other sub-count is 0; when neither is requested both
  sub-counts are 0. When both are requested and \<open>N < 2^1024 - 2^970\<close> the partition
  yields non-negative sub-counts that sum exactly to \<open>N\<close>; for \<open>N\<close> up to 89 the
  MultipleChoice sub-count is 70 percent of \<open>N\<close> rounded down and TrueFalse gets the
  remainder (\<open>N = 15\<close> gives 10 and 5). Whatever sub-counts the partition yields are
  non-negative and, when at least one type is requested, sum to \<open>N\<close>. A sub-count of 0
  means that the sub-step of that type makes no call: a request for one type runs the
  batch of that type alone, from the first call on, and a request for neither type
  returns the empty list without a call.
\<close>

theorem type_counts_amended:
  assumes "0 \<le> N"
  shows "(requested types ''Multiple Choice'' \<and> \<not> requested types ''True/False''
            \<longrightarrow> type_counts N types = Inr (N, 0))
     \<and> (\<not> requested types ''Multiple Choice'' \<and> requested types ''True/False''
            \<longrightarrow> type_counts N types = Inr (0, N))
     \<and> (\<not> requested types ''Multiple Choice'' \<and> \<not> requested types ''True/False''
            \<longrightarrow> type_counts N types = Inr (0, 0))
     \<and> (requested types ''Multiple Choice'' \<and> requested types ''True/False''
          \<and> N < 2 ^ 1024 - 2 ^ 970
            \<longrightarrow> (\<exists>mc tf. type_counts N types = Inr (mc, tf)
                  \<and> 0 \<le> mc \<and> 0 \<le> tf \<and> mc + tf = N))
     \<and> (requested types ''Multiple Choice'' \<and> requested types ''True/False'' \<and> N \<le> 89
            \<longrightarrow> type_counts N types = Inr (7 * N div 10, N - 7 * N div 10))
     \<and> type_counts 15 None = Inr (10, 5)
     \<and> (\<forall>mc tf. type_counts N types = Inr (mc, tf)
            \<longrightarrow> 0 \<le> mc \<and> 0 \<le> tf
                \<and> (requested types ''Multiple Choice'' \<or> requested types ''True/False''
                      \<longrightarrow> mc + tf = N))
     \<and> mc_batch loads llm src 0 difficulty calls = ([], calls)
     \<and> tf_batch loads llm src 0 difficulty calls = ([], calls)
     \<and> (requested types ''Multiple Choice'' \<and> \<not> requested types ''True/False'' \<and> 0 < N
            \<longrightarrow> generate_quiz loads llm src N difficulty types calls
                  = Inr (generate_multiple_choice_questions loads llm src N difficulty calls))
     \<and> (\<not> requested types ''Multiple Choice'' \<and> requested types ''True/False'' \<and> 0 < N
            \<longrightarrow> generate_quiz loads llm src N difficulty types calls
                  = Inr (generate_true_false_questions loads llm src N difficulty calls))
     \<and> (\<not> requested types ''Multiple Choice'' \<and> \<not> requested types ''True/False''
            \<longrightarrow> generate_quiz loads llm src N difficulty types calls = Inr ([], calls))"
proof -
  note single = type_counts_single [of types N]
  have both: "\<exists>mc tf. type_counts N types = Inr (mc, tf)
                  \<and> 0 \<le> mc \<and> 0 \<le> tf \<and> mc + tf = N"
    if h: "requested types ''Multiple Choice'' \<and> requested types ''True/False''
          \<and> N < 2 ^ 1024 - 2 ^ 970"
  proof -
    from h assms have "requested types ''Multiple Choice'' \<and> requested types ''True/False''
           \<longrightarrow> \<bar>N\<bar> < 2 ^ 1024 - 2 ^ 970"
      by simp
    from type_counts_returns [OF this] obtain mc tf
      where eq: "type_counts N types = Inr (mc, tf)"
      by blast
    from type_counts_range [OF assms eq] type_counts_cases [OF eq] h
    have "0 \<le> mc \<and> 0 \<le> tf \<and> mc + tf = N"
      by auto
    with eq show ?thesis
      by blast
  qed
  have small: "type_counts N types = Inr (7 * N div 10, N - 7 * N div 10)"
    if h: "requested types ''Multiple Choice'' \<and> requested types ''True/False'' \<and> N \<le> 89"
  proof -
    from h assms have "int_times_07 N = Inr (7 * N div 10)"
      by (simp add: int_times_07_small)
    with h show ?thesis
      by (simp add: type_counts_both)
  qed
  have fifteen: "type_counts 15 None = Inr (10, 5)"
    by (simp add: type_counts_def default_question_types_def int_times_07_15)
  have any: "0 \<le> mc \<and> 0 \<le> tf
                \<and> (requested types ''Multiple Choice'' \<or> requested types ''True/False''
                      \<longrightarrow> mc + tf = N)"
    if eq: "type_counts N types = Inr (mc, tf)" for mc tf
    using type_counts_range [OF assms eq] type_counts_cases [OF eq] by auto
  have skip_mc: "mc_batch loads llm src 0 difficulty calls = ([], calls)"
    by (simp add: mc_batch_skipped)
  have skip_tf: "tf_batch loads llm src 0 difficulty calls = ([], calls)"
    by (simp add: tf_batch_skipped)
  have only_mc: "generate_quiz loads llm src N difficulty types calls
                  = Inr (generate_multiple_choice_questions loads llm src N difficulty calls)"
    if h: "requested types ''Multiple Choice'' \<and> \<not> requested types ''True/False'' \<and> 0 < N"
  proof -
    from h single have "type_counts N types = Inr (N, 0)"
      by blast
    from generate_quiz_unfold [OF this, of loads llm src difficulty calls] h show ?thesis
      by (simp add: mc_batch_def tf_batch_def)
  qed
  have only_tf: "generate_quiz loads llm src N difficulty types calls
                  = Inr (generate_true_false_questions loads llm src N difficulty calls)"
    if h: "\<not> requested types ''Multiple Choice'' \<and> requested types ''True/False'' \<and> 0 < N"
  proof -
    from h single have "type_counts N types = Inr (0, N)"
      by blast
    from generate_quiz_unfold [OF this, of loads llm src difficulty calls] h show ?thesis
      by (simp add: mc_batch_def tf_batch_def)
  qed
  have neither: "generate_quiz loads llm src N difficulty types calls = Inr ([], calls)"
    if h: "\<not> requested types ''Multiple Choice'' \<and> \<not> requested types ''True/False''"
  proof -
    from h single have "type_counts N types = Inr (0, 0)"
      by blast
    from generate_quiz_unfold [OF this, of loads llm src difficulty calls] show ?thesis
      by (simp add: mc_batch_def tf_batch_def)
  qed
  from single both small fifteen any skip_mc skip_tf only_mc only_tf neither show ?thesis
    by blast
qed

theorem type_counts_amended_witness:
  "(0::int) \<le> 20 \<and> (20::int) < 2 ^ 1024 - 2 ^ 970 \<and> (20::int) \<le> 89
   \<and> requested None ''Multiple Choice'' \<and> requested None ''True/False''
   \<and> type_counts 20 None = Inr (14, 6)
   \<and> requested (Some [''True/False'']) ''True/False''
   \<and> type_counts 20 (Some [''True/False'']) = Inr (0, 20)
   \<and> generate_quiz json_loads answers_six ''source'' 20 ''Easy'' (Some [''True/False'']) 0
       = Inr (map (tagged_record ''true_false'') ''123456'', 1)
   \<and> requested (Some [''Multiple Choice'']) ''Multiple Choice''
   \<and> type_counts 20 (Some [''Multiple Choice'']) = Inr (20, 0)
   \<and> type_counts 20 (Some []) = Inr (0, 0)
   \<and> generate_quiz json_loads answers_six ''source'' 20 ''Easy'' (Some []) 0 = Inr ([], 0)"
proof -
  have h1: "(0::int) \<le> 20" and h2: "(20::int) < 2 ^ 1024 - 2 ^ 970" and h3: "(20::int) \<le> 89"
    and h4: "(0::int) < 20"
    by simp_all
  have q1: "requested None ''Multiple Choice''" and q2: "requested None ''True/False''"
    by (simp_all add: requested_def default_question_types_def)
  have q3: "requested (Some [''True/False'']) ''True/False''"
    and q4: "\<not> requested (Some [''True/False'']) ''Multiple Choice''"
    by (simp_all add: requested_def)
  have q5: "requested (Some [''Multiple Choice'']) ''Multiple Choice''"
    and q6: "\<not> requested (Some [''Multiple Choice'']) ''True/False''"
    by (simp_all add: requested_def)
  have q7: "\<not> requested (Some []) ''Multiple Choice''"
    and q8: "\<not> requested (Some []) ''True/False''"
    by (simp_all add: requested_def)
  from type_counts_amended [OF h1, of None] q1 q2 h3
  have "type_counts 20 None = Inr (7 * 20 div 10, 20 - 7 * 20 div 10)"
    by blast
  then have r1: "type_counts 20 None = Inr (14, 6)"
    by simp
  note tf_only = type_counts_amended [OF h1, of "Some [''True/False'']" json_loads answers_six
      "''source''" "''Easy''" 0]
  from tf_only q3 q4 have r2: "type_counts 20 (Some [''True/False'']) = Inr (0, 20)"
    by blast
  from tf_only q3 q4 h4
  have "generate_quiz json_loads answers_six ''source'' 20 ''Easy'' (Some [''True/False'']) 0
       = Inr (generate_true_false_questions json_loads answers_six ''source'' 20 ''Easy'' 0)"
    by blast
  then have r3: "generate_quiz json_loads answers_six ''source'' 20 ''Easy''
      (Some [''True/False'']) 0 = Inr (map (tagged_record ''true_false'') ''123456'', 1)"
    by (simp only: answers_six_tf_only)
  from type_counts_amended [OF h1, of "Some [''Multiple Choice'']"] q5 q6
  have r4: "type_counts 20 (Some [''Multiple Choice'']) = Inr (20, 0)"
    by blast
  note none = type_counts_amended [OF h1, of "Some []" json_loads answers_six
      "''source''" "''Easy''" 0]
  from none q7 q8 have r5: "type_counts 20 (Some []) = Inr (0, 0)"
    by blast
  from none q7 q8
  have r6: "generate_quiz json_loads answers_six ''source'' 20 ''Easy'' (Some []) 0 = Inr ([], 0)"
    by blast
  from h1 h2 h3 q1 q2 q3 q5 r1 r2 r3 r4 r5 r6 show ?thesis
    by blast
qed

text \<open>
  Claim C5. Let \<open>N \<ge> 0\<close>, and \<open>N < 2^1024 - 2^970\<close> when both types are requested. Then
  \<open>generate_quiz\<close> raises nothing and returns the list that
  \<open>_generate_multiple_choice_questions\<close> returns for the MultipleChoice sub-count (the
  empty list when that sub-count is 0) followed by the list that
  \<open>_generate_true_false_questions\<close> returns for the TrueFalse sub-count (the empty list when
  that sub-count is 0), the second function starting from the call count the first one
  left, each list in its own order. Every record of the first part has the type
  \<open>multiple_choice\<close> and every record of the second the type \<open>true_false\<close>. Neither part is
  longer than its sub-count, and the whole list has at most \<open>N\<close> records. When the
  TrueFalse part is empty the result is the MultipleChoice part, and the other way round.
\<close>

theorem generate_quiz_concatenates:
  assumes "0 \<le> N"
    and "requested types ''Multiple Choice'' \<and> requested types ''True/False''
         \<longrightarrow> N < 2 ^ 1024 - 2 ^ 970"
  shows "\<exists>mc tf mc_questions tf_questions calls1 calls2.
      type_counts N types = Inr (mc, tf)
      \<and> (mc_questions, calls1)
          = (if 0 < mc
             then generate_multiple_choice_questions loads llm src mc difficulty calls
             else ([], calls))
      \<and> (tf_questions, calls2)
          = (if 0 < tf
             then generate_true_false_questions loads llm src tf difficulty calls1
             else ([], calls1))
      \<and> generate_quiz loads llm src N difficulty types calls
          = Inr (mc_questions @ tf_questions, calls2)
      \<and> int (length mc_questions) \<le> mc \<and> int (length tf_questions) \<le> tf \<and> mc + tf \<le> N
      \<and> int (length (mc_questions @ tf_questions)) \<le> N
      \<and> (\<forall>q \<in> set mc_questions. map_of q ''type'' = Some (JStr ''multiple_choice''))
      \<and> (\<forall>q \<in> set tf_questions. map_of q ''type'' = Some (JStr ''true_false''))
      \<and> (tf_questions = [] \<longrightarrow>
            generate_quiz loads llm src N difficulty types calls = Inr (mc_questions, calls2))
      \<and> (mc_questions = [] \<longrightarrow>
            generate_quiz loads llm src N difficulty types calls = Inr (tf_questions, calls2))"
proof -
  from assms have "requested types ''Multiple Choice'' \<and> requested types ''True/False''
           \<longrightarrow> \<bar>N\<bar> < 2 ^ 1024 - 2 ^ 970"
    by simp
  from type_counts_returns [OF this] obtain mc tf where eq: "type_counts N types = Inr (mc, tf)"
    by blast
  from type_counts_range [OF assms(1) eq] have mc: "0 \<le> mc" and tf: "0 \<le> tf"
    and total: "mc + tf \<le> N"
    by simp_all
  obtain mc_questions calls1
    where b1: "mc_batch loads llm src mc difficulty calls = (mc_questions, calls1)"
    by (cases "mc_batch loads llm src mc difficulty calls")
  obtain tf_questions calls2
    where b2: "tf_batch loads llm src tf difficulty calls1 = (tf_questions, calls2)"
    by (cases "tf_batch loads llm src tf difficulty calls1")
  from b1 have s1: "(mc_questions, calls1)
          = (if 0 < mc
             then generate_multiple_choice_questions loads llm src mc difficulty calls
             else ([], calls))"
    by (simp add: mc_batch_def)
  from b2 have s2: "(tf_questions, calls2)
          = (if 0 < tf
             then generate_true_false_questions loads llm src tf difficulty calls1
             else ([], calls1))"
    by (simp add: tf_batch_def)
  from generate_quiz_unfold [OF eq, of loads llm src difficulty calls] b1 b2
  have result: "generate_quiz loads llm src N difficulty types calls
      = Inr (mc_questions @ tf_questions, calls2)"
    by simp
  from mc_batch_length [OF mc, of loads llm src difficulty calls] b1
  have l1: "int (length mc_questions) \<le> mc"
    by simp
  from tf_batch_length [OF tf, of loads llm src difficulty calls1] b2
  have l2: "int (length tf_questions) \<le> tf"
    by simp
  from l1 l2 total have len: "int (length (mc_questions @ tf_questions)) \<le> N"
    by simp
  have t1: "\<forall>q \<in> set mc_questions. map_of q ''type'' = Some (JStr ''multiple_choice'')"
    using b1 mc_batch_tagged [of _ loads llm src mc difficulty calls] by simp
  have t2: "\<forall>q \<in> set tf_questions. map_of q ''type'' = Some (JStr ''true_false'')"
    using b2 tf_batch_tagged [of _ loads llm src tf difficulty calls1] by simp
  from result have only_mc: "tf_questions = [] \<longrightarrow>
      generate_quiz loads llm src N difficulty types calls = Inr (mc_questions, calls2)"
    by simp
  from result have only_tf: "mc_questions = [] \<longrightarrow>
      generate_quiz loads llm src N difficulty types calls = Inr (tf_questions, calls2)"
    by simp
  from eq s1 s2 result l1 l2 total len t1 t2 only_mc only_tf show ?thesis
    by blast
qed

theorem generate_quiz_concatenates_witness:
  "(0::int) \<le> 20 \<and> (20::int) < 2 ^ 1024 - 2 ^ 970
   \<and> type_counts 20 None = Inr (14, 6)
   \<and> generate_multiple_choice_questions json_loads answers_six ''source'' 14 ''Easy'' 0
       = (map (tagged_record ''multiple_choice'') ''123456'', 1)
   \<and> generate_true_false_questions json_loads answers_six ''source'' 6 ''Easy'' 1
       = (map (tagged_record ''true_false'') ''123456'', 2)
   \<and> generate_quiz json_loads answers_six ''source'' 20 ''Easy'' None 0
       = Inr (map (tagged_record ''multiple_choice'') ''123456''
               @ map (tagged_record ''true_false'') ''123456'', 2)
   \<and> int (length (map (tagged_record ''multiple_choice'') ''123456''
               @ map (tagged_record ''true_false'') ''123456'')) \<le> 20
   \<and> generate_true_false_questions json_loads answers_once ''source'' 6 ''Easy'' 1 = ([], 3)
   \<and> generate_quiz json_loads answers_once ''source'' 20 ''Easy'' None 0
       = Inr (map (tagged_record ''multiple_choice'') ''123456'', 3)"
proof -
  have h1: "(0::int) \<le> 20" and h2: "(20::int) < 2 ^ 1024 - 2 ^ 970"
    by simp_all
  then have h3: "requested None ''Multiple Choice'' \<and> requested None ''True/False''
         \<longrightarrow> (20::int) < 2 ^ 1024 - 2 ^ 970"
    by simp
  from generate_quiz_concatenates [OF h1 h3, of json_loads answers_six "''source''"
      "''Easy''" 0]
  obtain mc tf mc_questions tf_questions calls1 calls2
    where "type_counts 20 None = Inr (mc, tf)"
      and "(mc_questions, calls1)
          = (if 0 < mc
             then generate_multiple_choice_questions json_loads answers_six ''source'' mc
                    ''Easy'' 0
             else ([], 0))"
      and "(tf_questions, calls2)
          = (if 0 < tf
             then generate_true_false_questions json_loads answers_six ''source'' tf
                    ''Easy'' calls1
             else ([], calls1))"
      and "generate_quiz json_loads answers_six ''source'' 20 ''Easy'' None 0
          = Inr (mc_questions @ tf_questions, calls2)"
      and "int (length (mc_questions @ tf_questions)) \<le> 20"
    by blast
  with type_counts_20 answers_six_mc answers_six_tf
  have r1: "generate_quiz json_loads answers_six ''source'' 20 ''Easy'' None 0
       = Inr (map (tagged_record ''multiple_choice'') ''123456''
               @ map (tagged_record ''true_false'') ''123456'', 2)"
    and r2: "int (length (map (tagged_record ''multiple_choice'') ''123456''
               @ map (tagged_record ''true_false'') ''123456'')) \<le> 20"
    by simp_all
  from generate_quiz_concatenates [OF h1 h3, of json_loads answers_once "''source''"
      "''Easy''" 0]
  obtain mc' tf' mc_questions' tf_questions' calls1' calls2'
    where "type_counts 20 None = Inr (mc', tf')"
      and "(mc_questions', calls1')
          = (if 0 < mc'
             then generate_multiple_choice_questions json_loads answers_once ''source'' mc'
                    ''Easy'' 0
             else ([], 0))"
      and "(tf_questions', calls2')
          = (if 0 < tf'
             then generate_true_false_questions json_loads answers_once ''source'' tf'
                    ''Easy'' calls1'
             else ([], calls1'))"
      and "generate_quiz json_loads answers_once ''source'' 20 ''Easy'' None 0
          = Inr (mc_questions' @ tf_questions', calls2')"
    by blast
  with type_counts_20 answers_once_mc answers_once_tf
  have r3: "generate_quiz json_loads answers_once ''source'' 20 ''Easy'' None 0
       = Inr (map (tagged_record ''multiple_choice'') ''123456'', 3)"
    by simp
  from h1 h2 type_counts_20 answers_six_mc answers_six_tf answers_once_tf r1 r2 r3
  show ?thesis
    by blast
qed

text \<open>
  Claim C9 states that after an extraction that yields no usable content no quiz
  generation is attempted. Its first half holds: \<open>extract_text_from_pdf\<close> raises nothing
  and returns a diagnostic string (lemmas \<open>extract_text_never_raises\<close>,
  \<open>extract_text_diagnostic\<close>, \<open>extract_text_error\<close>). The second half fails on the code:
  the page tests the returned string with \<open>strip\<close> only, the diagnostic string is not
  blank, so the upload counts as processed, the generate button is offered, and a click
  runs \<open>generate_quiz\<close> on the diagnostic string, with at least one call of the service.
  Here the PDF has no text layer (the primary extractor returns the empty text) and the
  fallback library is absent.
\<close>

theorem generation_after_failed_extraction:
  "extract_text_from_pdf (Inr []) None = Inr no_text_message
   \<and> process_upload initial_state (Inr [], None)
       = (\<lparr>pdf_processed = True, extracted_text = no_text_message\<rparr>, Processed)
   \<and> generate_button loads llm (fst (process_upload initial_state (Inr [], None)))
         ''key'' 15 ''Medium'' default_question_types calls
       = Some (generate_quiz loads llm no_text_message 15 ''Medium''
                 (Some default_question_types) calls)
   \<and> (\<exists>questions calls'.
         generate_quiz loads llm no_text_message 15 ''Medium''
             (Some default_question_types) calls = Inr (questions, calls')
         \<and> calls < calls')"
proof -
  have diag: "extract_text_from_pdf (Inr []) None = Inr no_text_message"
    by (simp add: extract_text_diagnostic strip_def)
  have up: "process_upload initial_state (Inr [], None)
       = (\<lparr>pdf_processed = True, extracted_text = no_text_message\<rparr>, Processed)"
    by (simp add: failed_extraction_is_processed strip_def)
  have button: "generate_button loads llm (fst (process_upload initial_state (Inr [], None)))
         ''key'' 15 ''Medium'' default_question_types calls
       = Some (generate_quiz loads llm no_text_message 15 ''Medium''
                 (Some default_question_types) calls)"
    by (simp add: up generate_button_def)
  note run = generate_quiz_unfold [OF type_counts_15, of loads llm no_text_message "''Medium''"
      calls]
  have "calls < snd (mc_batch loads llm no_text_message 10 ''Medium'' calls)"
    by (rule batch_positive_calls) simp
  also have "\<dots> \<le> snd (tf_batch loads llm no_text_message 5 ''Medium''
      (snd (mc_batch loads llm no_text_message 10 ''Medium'' calls)))"
    by (rule tf_batch_calls_ge)
  finally have "\<exists>questions calls'.
         generate_quiz loads llm no_text_message 15 ''Medium''
             (Some default_question_types) calls = Inr (questions, calls')
         \<and> calls < calls'"
    using run by blast
  with diag up button show ?thesis
    by blast
qed

end
